theory Spec2Isabelle
  imports Complex_Main "HOL-Library.Word"
begin

unbundle bit_operations_syntax

section \<open>Errors\<close>

text \<open>
  Every \<^verbatim>\<open>throw\<close> of the source is a value of type \<open>error\<close>.  The constructor is
  the C++ exception class, its argument names the message of the throw site.
\<close>

datatype reason =
    EmptyColumn            \<comment> \<open>column_to_integer() received empty input string.\<close>
  | NonAlphaColumn         \<comment> \<open>column_to_integer() received non-alphabetic input character.\<close>
  | ColumnTooLarge         \<comment> \<open>... received a too large column index.\<close>
  | ColumnZero             \<comment> \<open>integer_to_column() received an input of 0.\<close>
  | InvalidCellRef         \<comment> \<open>... received an invalid cell reference.\<close>
  | InvalidStartRef        \<comment> \<open>... received an invalid starting cell reference.\<close>
  | InvalidEndRef          \<comment> \<open>... received an invalid ending cell reference.\<close>
  | EndNotAfterStart       \<comment> \<open>... received an ending cell reference equal or prior to its starting cell reference.\<close>
  | FormulaTooLong         \<comment> \<open>the formula supplied to add_formula_cell() is too long.\<close>
  | StringTooLong          \<comment> \<open>the string value supplied to add_string_cell() is too long.\<close>
  | TooManyLineBreaks      \<comment> \<open>the string value supplied to add_string_cell() contains too many line breaks.\<close>
  | DuplicateCell          \<comment> \<open>... encountered duplicate insertion of a cell at the same reference.\<close>
  | InvalidWidth           \<comment> \<open>set_column_width() received invalid width argument.\<close>
  | InvalidCol             \<comment> \<open>set_column_width() received invalid col argument.\<close>
  | InvalidHeight          \<comment> \<open>set_row_height() received invalid height argument.\<close>
  | InvalidRow             \<comment> \<open>set_row_height() received invalid row argument.\<close>
  | EmptySheetName         \<comment> \<open>addsheet() received an empty name for a new sheet.\<close>
  | DuplicateSheetName     \<comment> \<open>addSheet() received a new sheet with the same name as an existing sheet.\<close>
  | NoSheets               \<comment> \<open>publish() called, but Workbook has no Sheets.\<close>
  | EmptyFilename          \<comment> \<open>publish() called with empty filename.\<close>
  | TimestampFailed        \<comment> \<open>Could not assemble timestamp string for core.xml in publish().\<close>

datatype zip_mesg =
    CANNOT_OPEN_MESG | DOUBLE_OPEN_MESG | NOT_OPENED_MESG | UNEXPECTED_CLOSE_MESG
  | OUTPUT_FAIL_MESG | EMPTY_FINALIZE_MESG | DUPLICATE_FILE_MESG

datatype error =
    invalid_argument reason
  | runtime_error reason
  | length_error reason
  | exception zip_mesg

type_synonym uint32_t = "32 word"
type_synonym uint16_t = "16 word"

section \<open>Cell references\<close>

definition MAX_ROW :: uint32_t where "MAX_ROW = 1048576"
definition MAX_COL :: uint32_t where "MAX_COL = 16384"

text \<open>The character classification of \<^verbatim>\<open><cctype>\<close> in the "C" locale, on byte values.\<close>

definition toupper_c :: "char \<Rightarrow> char" where
  "toupper_c c = (if 97 \<le> (of_char c :: nat) \<and> (of_char c :: nat) \<le> 122
                  then char_of ((of_char c :: nat) - 32) else c)"


definition isupper_c :: "char \<Rightarrow> bool" where
  "isupper_c c \<longleftrightarrow> 65 \<le> (of_char c :: nat) \<and> (of_char c :: nat) \<le> 90"

definition isalpha_c :: "char \<Rightarrow> bool" where
  "isalpha_c c \<longleftrightarrow> (65 \<le> (of_char c :: nat) \<and> (of_char c :: nat) \<le> 90)
                  \<or> (97 \<le> (of_char c :: nat) \<and> (of_char c :: nat) \<le> 122)"

definition isdigit_c :: "char \<Rightarrow> bool" where
  "isdigit_c c \<longleftrightarrow> 48 \<le> (of_char c :: nat) \<and> (of_char c :: nat) \<le> 57"

text \<open>\<^verbatim>\<open>static_cast<uint32_t>(this_char)\<close> for a character.\<close>

definition char_to_uint32 :: "char \<Rightarrow> uint32_t" where
  "char_to_uint32 c = word_of_nat (of_char c :: nat)"

text \<open>
  The \<^verbatim>\<open>for\<close> loop of \<^verbatim>\<open>column_to_integer\<close> over all characters but the last;
  \<open>integer\<close> is the running \<^verbatim>\<open>uint32_t\<close> and wraps around as in the source.
\<close>

fun column_to_integer_loop :: "string \<Rightarrow> uint32_t \<Rightarrow> error + uint32_t" where
  "column_to_integer_loop [] integer = Inr integer"
| "column_to_integer_loop (c # cs) integer =
     (if \<not> isupper_c (toupper_c c) then Inl (invalid_argument NonAlphaColumn)
      else column_to_integer_loop cs (26 * (integer + char_to_uint32 (toupper_c c) - 64)))"

definition column_to_integer :: "string \<Rightarrow> error + uint32_t" where
  "column_to_integer column =
     (if column = [] then Inl (invalid_argument EmptyColumn)
      else case column_to_integer_loop (butlast column) 0 of
        Inl e \<Rightarrow> Inl e
      | Inr integer \<Rightarrow>
          if \<not> isupper_c (toupper_c (last column)) then Inl (invalid_argument NonAlphaColumn)
          else if integer + char_to_uint32 (toupper_c (last column)) - 64 > MAX_COL
          then Inl (invalid_argument ColumnTooLarge)
          else Inr (integer + char_to_uint32 (toupper_c (last column)) - 64))"

text \<open>
  The \<^verbatim>\<open>while (integer > 0u)\<close> loop of \<^verbatim>\<open>integer_to_column\<close>; each round inserts
  one character at the front of \<open>column\<close>.
\<close>

function integer_to_column_loop :: "uint32_t \<Rightarrow> string \<Rightarrow> string" where
  "integer_to_column_loop integer column =
     (if integer > 0
      then integer_to_column_loop ((integer - 1) div 26)
             ((if integer mod 26 = 0 then CHR ''Z''
               else char_of (unat (integer mod 26 + 64))) # column)
      else column)"
  by pat_completeness auto

termination
proof (relation "measure (\<lambda>(integer, column). unat integer)")
  show "wf (measure (\<lambda>(integer, column). unat integer))" by simp
next
  fix integer :: uint32_t and column :: string
  assume "0 < integer"
  then have nz: "integer \<noteq> 0" by auto
  then have pos: "0 < unat integer" by (simp add: unat_gt_0)
  have "unat (integer - 1) = unat integer - 1" using nz by (rule unat_minus_one)
  then have "unat ((integer - 1) div 26) = (unat integer - 1) div 26" by (simp add: unat_div)
  also have "\<dots> < unat integer" using pos by (simp add: div_less_iff_less_mult)
  finally show "(((integer - 1) div 26,
           (if integer mod 26 = 0 then CHR ''Z'' else char_of (unat (integer mod 26 + 64))) # column),
          integer, column) \<in> measure (\<lambda>(integer, column). unat integer)"
    by simp
qed

declare integer_to_column_loop.simps [simp del]

definition integer_to_column :: "uint32_t \<Rightarrow> error + string" where
  "integer_to_column integer =
     (if integer = 0 then Inl (invalid_argument ColumnZero)
      else if integer > MAX_COL then Inl (invalid_argument ColumnTooLarge)
      else Inr (integer_to_column_loop integer []))"

text \<open>The character that one round of the loop inserts for the value \<open>w\<close>.\<close>

definition col_digit :: "uint32_t \<Rightarrow> char" where
  "col_digit w = (if w mod 26 = 0 then CHR ''Z'' else char_of (unat (w mod 26 + 64)))"

text \<open>A cell reference as a pair of \<^verbatim>\<open>uint32_t\<close>.\<close>

record integerref_t =
  row :: uint32_t
  col :: uint32_t

text \<open>
  \<^verbatim>\<open>std::to_string\<close> on an unsigned integer: its decimal digits, most significant
  first, no padding.
\<close>

fun to_string_nat :: "nat \<Rightarrow> string" where
  "to_string_nat n =
     (if n < 10 then [char_of (48 + n)]
      else to_string_nat (n div 10) @ [char_of (48 + n mod 10)])"

declare to_string_nat.simps [simp del]

definition to_string :: "'a::len word \<Rightarrow> string" where
  "to_string w = to_string_nat (unat w)"

text \<open>
  \<^verbatim>\<open>std::stoll(str, &pos, 10)\<close>: leading white space is skipped, an optional sign is
  read, then the longest run of decimal digits.  No digit gives
  \<^verbatim>\<open>std::invalid_argument\<close>, a value outside \<^verbatim>\<open>long long\<close> gives
  \<^verbatim>\<open>std::out_of_range\<close>; otherwise the value and the number of characters read.
\<close>

datatype stoll_result = stoll_invalid_argument | stoll_out_of_range | stoll_ok int nat

definition isspace_c :: "char \<Rightarrow> bool" where
  "isspace_c c \<longleftrightarrow> (of_char c :: nat) = 32 \<or> (9 \<le> (of_char c :: nat) \<and> (of_char c :: nat) \<le> 13)"

definition digits_value :: "string \<Rightarrow> nat" where
  "digits_value ds = foldl (\<lambda>a c. 10 * a + ((of_char c :: nat) - 48)) 0 ds"

definition stoll :: "string \<Rightarrow> stoll_result" where
  "stoll str =
     (let s1 = dropWhile isspace_c str;
          neg = (s1 \<noteq> [] \<and> hd s1 = CHR ''-'');
          s2 = (if s1 \<noteq> [] \<and> (hd s1 = CHR ''-'' \<or> hd s1 = CHR ''+'') then tl s1 else s1);
          ds = takeWhile isdigit_c s2;
          v = (if neg then - int (digits_value ds) else int (digits_value ds))
      in if ds = [] then stoll_invalid_argument
         else if v < - (2 ^ 63) \<or> v > 2 ^ 63 - 1 then stoll_out_of_range
         else stoll_ok v (length str - length s2 + length ds))"

text \<open>\<^verbatim>\<open>std::string::npos\<close> on a 64-bit \<^verbatim>\<open>size_t\<close>.\<close>

definition npos :: nat where "npos = 2 ^ 64 - 1"

text \<open>
  The scanning loop of \<^verbatim>\<open>mixedref_to_integerref\<close>.  The arguments after the
  remaining characters are \<^verbatim>\<open>jChar\<close>, \<^verbatim>\<open>found_first_alpha\<close>,
  \<^verbatim>\<open>found_first_decimal\<close> and \<^verbatim>\<open>row_start\<close>; the result is the last three
  when the loop ends without a throw.
\<close>

fun mixedref_scan :: "string \<Rightarrow> nat \<Rightarrow> bool \<Rightarrow> bool \<Rightarrow> nat \<Rightarrow> error + (bool \<times> bool \<times> nat)" where
  "mixedref_scan [] jChar found_first_alpha found_first_decimal row_start =
     Inr (found_first_alpha, found_first_decimal, row_start)"
| "mixedref_scan (this_char # cs) jChar found_first_alpha found_first_decimal row_start =
     (if isalpha_c this_char then
        (if found_first_decimal then Inl (invalid_argument InvalidCellRef)
         else mixedref_scan cs (jChar + 1) True found_first_decimal row_start)
      else if isdigit_c this_char then
        (if \<not> found_first_alpha then Inl (invalid_argument InvalidCellRef)
         else mixedref_scan cs (jChar + 1) found_first_alpha True
                (if \<not> found_first_decimal then jChar else row_start))
      else Inl (invalid_argument InvalidCellRef))"

definition mixedref_to_integerref :: "string \<Rightarrow> error + integerref_t" where
  "mixedref_to_integerref mixedref =
     (case mixedref_scan mixedref 0 False False npos of
        Inl e \<Rightarrow> Inl e
      | Inr (found_first_alpha, found_first_decimal, row_start) \<Rightarrow>
          if \<not> found_first_alpha \<or> \<not> found_first_decimal
          then Inl (invalid_argument InvalidCellRef)
          else case column_to_integer (take row_start mixedref) of
            Inl e \<Rightarrow> Inl e
          | Inr column \<Rightarrow>
              if row_start > length mixedref then Inl (invalid_argument InvalidCellRef)
              else case stoll (drop row_start mixedref) of
                stoll_invalid_argument \<Rightarrow> Inl (invalid_argument InvalidCellRef)
              | stoll_out_of_range \<Rightarrow> Inl (invalid_argument InvalidCellRef)
              | stoll_ok row_decode after_int \<Rightarrow>
                  if after_int \<noteq> length mixedref - row_start
                     \<or> row_decode < 1 \<or> row_decode > uint MAX_ROW
                  then Inl (invalid_argument InvalidCellRef)
                  else Inr \<lparr>row = word_of_int row_decode, col = column\<rparr>)"

definition integerref_to_mixedref :: "integerref_t \<Rightarrow> error + string" where
  "integerref_to_mixedref integerref =
     (if col integerref < 1 \<or> col integerref > MAX_COL
         \<or> row integerref < 1 \<or> row integerref > MAX_ROW
      then Inl (invalid_argument InvalidCellRef)
      else case integer_to_column (col integerref) of
        Inl e \<Rightarrow> Inl e
      | Inr column \<Rightarrow> Inr (column @ to_string (row integerref)))"

section \<open>Styles and the workbook's style catalog\<close>

text \<open>
  \<^verbatim>\<open>enum class NumberFormat : uint8_t\<close> is kept as its underlying byte, which is what
  the style sheet prints; \<open>GENERAL = 0\<close>, \<open>TEXT = 49\<close>, and \<open>FIX0 .. PCT16\<close> are
  the values 100 to 150.
\<close>

type_synonym NumberFormat = "8 word"

definition NumberFormat_GENERAL :: NumberFormat where "NumberFormat_GENERAL = 0"
definition NumberFormat_TEXT :: NumberFormat where "NumberFormat_TEXT = 49"

datatype HorizontalAlignment = HorizontalAlignment_GENERAL | LEFT | HorizontalAlignment_CENTER | RIGHT

datatype VerticalAlignment = BOTTOM | VerticalAlignment_CENTER | TOP

record cell_style_t =
  num_format :: NumberFormat
  horiz_align :: HorizontalAlignment
  vert_align :: VerticalAlignment
  wrap_text :: bool
  bold :: bool

definition generic_style :: cell_style_t where
  "generic_style = \<lparr>num_format = NumberFormat_GENERAL, horiz_align = HorizontalAlignment_GENERAL,
                     vert_align = BOTTOM, wrap_text = False, bold = False\<rparr>"

definition generic_string_style :: cell_style_t where
  "generic_string_style = \<lparr>num_format = NumberFormat_TEXT, horiz_align = HorizontalAlignment_GENERAL,
                            vert_align = BOTTOM, wrap_text = False, bold = False\<rparr>"

text \<open>
  \<^verbatim>\<open>std::find\<close> over a vector, as the index of the first element equal to the value,
  or the length of the vector for the end iterator.  \<^verbatim>\<open>operator==\<close> on
  \<^verbatim>\<open>cell_style_t\<close> compares all five fields, which is equality of the record.
\<close>

fun std_find :: "'a list \<Rightarrow> 'a \<Rightarrow> nat" where
  "std_find [] v = 0"
| "std_find (x # xs) v = (if x = v then 0 else Suc (std_find xs v))"

text \<open>\<^verbatim>\<open>Workbook::addStyle\<close>: the new catalog and the returned index.\<close>

definition addStyle :: "cell_style_t \<Rightarrow> cell_style_t list \<Rightarrow> cell_style_t list \<times> nat" where
  "addStyle cell_style cell_styles =
     (if std_find cell_styles cell_style = length cell_styles
      then (cell_styles @ [cell_style], length (cell_styles @ [cell_style]) - 1)
      else (cell_styles, std_find cell_styles cell_style))"

section \<open>Cells and sheets\<close>

text \<open>
  A \<^verbatim>\<open>double\<close> is one of the finite values (each a rational number), an infinity
  or a NaN.  The comparison \<open>double_less\<close> is the one of the hardware: false as soon as
  one side is a NaN.
\<close>

datatype double = Finite rat | PosInf | NegInf | NaN

fun double_less :: "double \<Rightarrow> double \<Rightarrow> bool" where
  "double_less NaN y = False"
| "double_less x NaN = False"
| "double_less PosInf y = False"
| "double_less x NegInf = False"
| "double_less NegInf y = True"
| "double_less x PosInf = True"
| "double_less (Finite a) (Finite b) = (a < b)"

datatype CellType = NUMBER | FORMULA | STRING | EMPTY

record cell_t =
  integerref :: integerref_t
  type :: CellType
  style_index :: nat
  num_val :: double
  str_fml_val :: string

record merged_cell_t =
  start_ref :: integerref_t
  end_ref :: integerref_t

definition cell_sort_compare :: "cell_t \<Rightarrow> cell_t \<Rightarrow> bool" where
  "cell_sort_compare a b \<longleftrightarrow>
     row (integerref a) < row (integerref b)
     \<or> (row (integerref a) = row (integerref b) \<and> col (integerref a) < col (integerref b))"

definition merged_cell_sort_compare :: "merged_cell_t \<Rightarrow> merged_cell_t \<Rightarrow> bool" where
  "merged_cell_sort_compare a b \<longleftrightarrow>
     row (start_ref a) < row (start_ref b)
     \<or> (row (start_ref a) = row (start_ref b) \<and> col (start_ref a) < col (start_ref b))"

definition column_widths_sort_compare :: "uint32_t \<times> double \<Rightarrow> uint32_t \<times> double \<Rightarrow> bool" where
  "column_widths_sort_compare a b \<longleftrightarrow> fst a < fst b"

definition row_heights_sort_compare :: "uint32_t \<times> double \<Rightarrow> uint32_t \<times> double \<Rightarrow> bool" where
  "row_heights_sort_compare a b \<longleftrightarrow> fst a < fst b"

text \<open>
  A \<^verbatim>\<open>std::set<T, Compare>\<close> is the list of its elements in iteration order.
  \<open>set_insert\<close> is \<^verbatim>\<open>insert\<close>: it returns the new set and whether the element went
  in; an element equivalent to one already present (neither compares below the other)
  leaves the set as it was.  \<open>set_find\<close> is \<^verbatim>\<open>find\<close>: the stored element
  equivalent to the key, if any.
\<close>

fun set_insert :: "('a \<Rightarrow> 'a \<Rightarrow> bool) \<Rightarrow> 'a \<Rightarrow> 'a list \<Rightarrow> 'a list \<times> bool" where
  "set_insert lt x [] = ([x], True)"
| "set_insert lt x (y # ys) =
     (if lt x y then (x # y # ys, True)
      else if lt y x then (y # fst (set_insert lt x ys), snd (set_insert lt x ys))
      else (y # ys, False))"

fun set_find :: "('a \<Rightarrow> 'a \<Rightarrow> bool) \<Rightarrow> 'a \<Rightarrow> 'a list \<Rightarrow> 'a option" where
  "set_find lt k [] = None"
| "set_find lt k (y # ys) =
     (if lt k y then None
      else if lt y k then set_find lt k ys
      else Some y)"

text \<open>
  The data members of \<^verbatim>\<open>Sheet\<close>.  The member \<^verbatim>\<open>workbook\<close> is a reference to the
  owning workbook, used only for \<^verbatim>\<open>addStyle\<close>: the operations below therefore run on
  a pair of the workbook's \<^verbatim>\<open>cell_styles\<close> and the sheet.
\<close>

record Sheet =
  name :: string
  filename :: string
  sheetId :: uint32_t
  relId :: string
  used_columns :: "uint32_t list"
  column_widths :: "(uint32_t \<times> double) list"
  row_heights :: "(uint32_t \<times> double) list"
  cells :: "cell_t list"
  merged_cells :: "merged_cell_t list"

type_synonym sheet_state = "cell_style_t list \<times> Sheet"

text \<open>The private constructor \<^verbatim>\<open>Sheet::Sheet\<close>: all containers start empty.\<close>

definition new_Sheet :: "string \<Rightarrow> string \<Rightarrow> uint32_t \<Rightarrow> string \<Rightarrow> Sheet" where
  "new_Sheet name' filename' sheetId' relId' =
     \<lparr>name = name', filename = filename', sheetId = sheetId', relId = relId',
      used_columns = [], column_widths = [], row_heights = [], cells = [], merged_cells = []\<rparr>"

text \<open>
  The constants of \<^verbatim>\<open>BasicWorkbook.h\<close> that the available header does not declare
  are parameters of the model.
\<close>

record limits =
  MAX_FORMULA_LEN :: nat
  MAX_STRING_LEN :: nat
  MAX_STRING_LINE_BREAKS :: nat
  MIN_ROW_HEIGHT :: double
  MAX_ROW_HEIGHT :: double

definition MIN_COL_WIDTH :: double where "MIN_COL_WIDTH = Finite 0"
definition MAX_COL_WIDTH :: double where "MAX_COL_WIDTH = Finite 255"

text \<open>The bounds test that every operation on a reference starts with.\<close>

definition ref_out_of_bounds :: "integerref_t \<Rightarrow> bool" where
  "ref_out_of_bounds ref \<longleftrightarrow>
     col ref < 1 \<or> col ref > MAX_COL \<or> row ref < 1 \<or> row ref > MAX_ROW"

text \<open>
  The block shared by \<^verbatim>\<open>add_number_cell\<close>, \<^verbatim>\<open>add_formula_cell\<close>,
  \<^verbatim>\<open>add_string_cell\<close> and \<^verbatim>\<open>add_empty_cell\<close> once their arguments have passed
  the checks: build the cell, take its style index from \<^verbatim>\<open>workbook.addStyle\<close>, insert
  it into \<^verbatim>\<open>cells\<close>, throw on a duplicate, record the column.  The catalog returned
  is the one after \<^verbatim>\<open>addStyle\<close> also when the insertion throws.
\<close>

definition store_cell ::
  "integerref_t \<Rightarrow> CellType \<Rightarrow> double \<Rightarrow> string \<Rightarrow> cell_style_t \<Rightarrow> sheet_state
     \<Rightarrow> sheet_state \<times> (error + unit)" where
  "store_cell ref ty num str cell_style st =
     (let (cell_styles, sheet) = st;
          (cell_styles', idx) = addStyle cell_style cell_styles;
          cell = \<lparr>integerref = ref, type = ty, style_index = idx, num_val = num, str_fml_val = str\<rparr>;
          insret = set_insert cell_sort_compare cell (cells sheet)
      in if \<not> snd insret
         then ((cell_styles', sheet\<lparr>cells := fst insret\<rparr>), Inl (runtime_error DuplicateCell))
         else ((cell_styles',
                sheet\<lparr>cells := fst insret,
                      used_columns := fst (set_insert (<) (col ref) (used_columns sheet))\<rparr>),
               Inr ()))"

definition add_number_cell ::
  "integerref_t \<Rightarrow> double \<Rightarrow> cell_style_t \<Rightarrow> sheet_state \<Rightarrow> sheet_state \<times> (error + unit)" where
  "add_number_cell ref number cell_style st =
     (if ref_out_of_bounds ref then (st, Inl (invalid_argument InvalidCellRef))
      else store_cell ref NUMBER number [] cell_style st)"

definition add_formula_cell ::
  "limits \<Rightarrow> integerref_t \<Rightarrow> string \<Rightarrow> cell_style_t \<Rightarrow> sheet_state
     \<Rightarrow> sheet_state \<times> (error + unit)" where
  "add_formula_cell K ref formula cell_style st =
     (if ref_out_of_bounds ref then (st, Inl (invalid_argument InvalidCellRef))
      else if length formula > MAX_FORMULA_LEN K then (st, Inl (invalid_argument FormulaTooLong))
      else store_cell ref FORMULA NaN formula cell_style st)"

definition add_string_cell ::
  "limits \<Rightarrow> integerref_t \<Rightarrow> string \<Rightarrow> cell_style_t \<Rightarrow> sheet_state
     \<Rightarrow> sheet_state \<times> (error + unit)" where
  "add_string_cell K ref val cell_style st =
     (if ref_out_of_bounds ref then (st, Inl (invalid_argument InvalidCellRef))
      else if length val > MAX_STRING_LEN K then (st, Inl (invalid_argument StringTooLong))
      else if count_list val CHR 0x0A > MAX_STRING_LINE_BREAKS K
      then (st, Inl (invalid_argument TooManyLineBreaks))
      else store_cell ref STRING NaN val cell_style st)"

definition add_empty_cell ::
  "integerref_t \<Rightarrow> cell_style_t \<Rightarrow> sheet_state \<Rightarrow> sheet_state \<times> (error + unit)" where
  "add_empty_cell ref cell_style st =
     (if ref_out_of_bounds ref then (st, Inl (invalid_argument InvalidCellRef))
      else store_cell ref EMPTY NaN [] cell_style st)"

text \<open>
  The values \<open>a, a + 1, \<dots>, b\<close> that a loop \<^verbatim>\<open>for (j = a; j <= b; j++)\<close> over
  \<^verbatim>\<open>uint32_t\<close> visits.  The loops below run after the bounds checks, so \<open>b\<close> is at
  most \<open>MAX_ROW\<close> and the counter never wraps.
\<close>

definition loop_range :: "uint32_t \<Rightarrow> uint32_t \<Rightarrow> uint32_t list" where
  "loop_range a b = map word_of_nat [unat a ..< Suc (unat b)]"

text \<open>
  The body of the two nested loops of the merged adds, one reference after the other in
  the order of the loops (rows outside, columns inside); the first throw of
  \<^verbatim>\<open>add_empty_cell\<close> ends the loops and keeps what was added before.
\<close>

fun add_empty_cells ::
  "integerref_t \<Rightarrow> integerref_t list \<Rightarrow> cell_style_t \<Rightarrow> sheet_state \<Rightarrow> sheet_state \<times> (error + unit)" where
  "add_empty_cells start [] cell_style st = (st, Inr ())"
| "add_empty_cells start (this_ref # refs) cell_style st =
     (if row this_ref = row start \<and> col this_ref = col start
      then add_empty_cells start refs cell_style st
      else case add_empty_cell this_ref cell_style st of
        (st', Inl e) \<Rightarrow> (st', Inl e)
      | (st', Inr u) \<Rightarrow> add_empty_cells start refs cell_style st')"

definition merge_refs :: "integerref_t \<Rightarrow> integerref_t \<Rightarrow> integerref_t list" where
  "merge_refs start end =
     concat (map (\<lambda>jRow. map (\<lambda>jCol. \<lparr>row = jRow, col = jCol\<rparr>) (loop_range (col start) (col end)))
                 (loop_range (row start) (row end)))"

text \<open>
  The three merged adds are the same text up to the call that stores the value at
  \<open>start\<close>, which is the argument \<open>add_first\<close> here.
\<close>

definition add_merged_cell ::
  "(sheet_state \<Rightarrow> sheet_state \<times> (error + unit)) \<Rightarrow> integerref_t \<Rightarrow> integerref_t \<Rightarrow> cell_style_t
     \<Rightarrow> sheet_state \<Rightarrow> sheet_state \<times> (error + unit)" where
  "add_merged_cell add_first start end cell_style st =
     (if ref_out_of_bounds start then (st, Inl (invalid_argument InvalidStartRef))
      else if ref_out_of_bounds end then (st, Inl (invalid_argument InvalidEndRef))
      else if col start > col end \<or> row start > row end
              \<or> (col start = col end \<and> row start = row end)
      then (st, Inl (invalid_argument EndNotAfterStart))
      else case add_first st of
        (st1, Inl e) \<Rightarrow> (st1, Inl e)
      | (st1, Inr u) \<Rightarrow>
          (case add_empty_cells start (merge_refs start end) cell_style st1 of
             (st2, Inl e) \<Rightarrow> (st2, Inl e)
           | ((cell_styles, sheet), Inr u) \<Rightarrow>
               ((cell_styles,
                 sheet\<lparr>merged_cells :=
                         fst (set_insert merged_cell_sort_compare
                                \<lparr>start_ref = start, end_ref = end\<rparr> (merged_cells sheet))\<rparr>),
                Inr ())))"

definition add_merged_number_cell ::
  "integerref_t \<Rightarrow> integerref_t \<Rightarrow> double \<Rightarrow> cell_style_t \<Rightarrow> sheet_state
     \<Rightarrow> sheet_state \<times> (error + unit)" where
  "add_merged_number_cell start end number cell_style =
     add_merged_cell (add_number_cell start number cell_style) start end cell_style"

definition add_merged_formula_cell ::
  "limits \<Rightarrow> integerref_t \<Rightarrow> integerref_t \<Rightarrow> string \<Rightarrow> cell_style_t \<Rightarrow> sheet_state
     \<Rightarrow> sheet_state \<times> (error + unit)" where
  "add_merged_formula_cell K start end formula cell_style =
     add_merged_cell (add_formula_cell K start formula cell_style) start end cell_style"

definition add_merged_string_cell ::
  "limits \<Rightarrow> integerref_t \<Rightarrow> integerref_t \<Rightarrow> string \<Rightarrow> cell_style_t \<Rightarrow> sheet_state
     \<Rightarrow> sheet_state \<times> (error + unit)" where
  "add_merged_string_cell K start end val cell_style =
     add_merged_cell (add_string_cell K start val cell_style) start end cell_style"

text \<open>
  \<^verbatim>\<open>set_column_width\<close> and \<^verbatim>\<open>set_row_height\<close>.  The result of
  \<^verbatim>\<open>insert\<close> is not looked at.
\<close>

definition set_column_width :: "uint32_t \<Rightarrow> double \<Rightarrow> Sheet \<Rightarrow> Sheet \<times> (error + unit)" where
  "set_column_width column width sheet =
     (if double_less width MIN_COL_WIDTH \<or> double_less MAX_COL_WIDTH width
      then (sheet, Inl (invalid_argument InvalidWidth))
      else if column < 1 \<or> column > MAX_COL then (sheet, Inl (invalid_argument InvalidCol))
      else (sheet\<lparr>column_widths :=
                    fst (set_insert column_widths_sort_compare (column, width) (column_widths sheet))\<rparr>,
            Inr ()))"

definition set_row_height :: "limits \<Rightarrow> uint32_t \<Rightarrow> double \<Rightarrow> Sheet \<Rightarrow> Sheet \<times> (error + unit)" where
  "set_row_height K r height sheet =
     (if double_less height (MIN_ROW_HEIGHT K) \<or> double_less (MAX_ROW_HEIGHT K) height
      then (sheet, Inl (invalid_argument InvalidHeight))
      else if r < 1 \<or> r > MAX_ROW then (sheet, Inl (invalid_argument InvalidRow))
      else (sheet\<lparr>row_heights :=
                    fst (set_insert row_heights_sort_compare (r, height) (row_heights sheet))\<rparr>,
            Inr ()))"

text \<open>
  The overloads that take a reference or a column as text convert it first; a throw of
  the conversion leaves the sheet as it was.  The overloads that take a row and a
  column as two integers build the \<^verbatim>\<open>integerref_t\<close> and call the functions above.
\<close>

definition with_mixedref ::
  "string \<Rightarrow> (integerref_t \<Rightarrow> sheet_state \<Rightarrow> sheet_state \<times> (error + unit))
     \<Rightarrow> sheet_state \<Rightarrow> sheet_state \<times> (error + unit)" where
  "with_mixedref mixedref f st =
     (case mixedref_to_integerref mixedref of
        Inl e \<Rightarrow> (st, Inl e)
      | Inr ref \<Rightarrow> f ref st)"

definition set_column_width_str :: "string \<Rightarrow> double \<Rightarrow> Sheet \<Rightarrow> Sheet \<times> (error + unit)" where
  "set_column_width_str column width sheet =
     (case column_to_integer column of
        Inl e \<Rightarrow> (sheet, Inl e)
      | Inr c \<Rightarrow> set_column_width c width sheet)"

text \<open>
  The calls a user can make on a sheet and on the catalog of its workbook, and the
  state after a sequence of them, whether each call returned or threw.
\<close>

datatype sheet_call =
    Add_number_cell integerref_t double cell_style_t
  | Add_number_cell_str string double cell_style_t
  | Add_merged_number_cell integerref_t integerref_t double cell_style_t
  | Add_merged_number_cell_str string string double cell_style_t
  | Add_formula_cell integerref_t string cell_style_t
  | Add_formula_cell_str string string cell_style_t
  | Add_merged_formula_cell integerref_t integerref_t string cell_style_t
  | Add_merged_formula_cell_str string string string cell_style_t
  | Add_string_cell integerref_t string cell_style_t
  | Add_string_cell_str string string cell_style_t
  | Add_merged_string_cell integerref_t integerref_t string cell_style_t
  | Add_merged_string_cell_str string string string cell_style_t
  | Set_column_width uint32_t double
  | Set_column_width_str string double
  | Set_row_height uint32_t double
  | Workbook_addStyle cell_style_t

fun do_call :: "limits \<Rightarrow> sheet_call \<Rightarrow> sheet_state \<Rightarrow> sheet_state \<times> (error + unit)" where
  "do_call K (Add_number_cell r v s) st = add_number_cell r v s st"
| "do_call K (Add_number_cell_str m v s) st = with_mixedref m (\<lambda>r. add_number_cell r v s) st"
| "do_call K (Add_merged_number_cell a b v s) st = add_merged_number_cell a b v s st"
| "do_call K (Add_merged_number_cell_str ma mb v s) st =
     with_mixedref ma (\<lambda>a. with_mixedref mb (\<lambda>b. add_merged_number_cell a b v s)) st"
| "do_call K (Add_formula_cell r v s) st = add_formula_cell K r v s st"
| "do_call K (Add_formula_cell_str m v s) st = with_mixedref m (\<lambda>r. add_formula_cell K r v s) st"
| "do_call K (Add_merged_formula_cell a b v s) st = add_merged_formula_cell K a b v s st"
| "do_call K (Add_merged_formula_cell_str ma mb v s) st =
     with_mixedref ma (\<lambda>a. with_mixedref mb (\<lambda>b. add_merged_formula_cell K a b v s)) st"
| "do_call K (Add_string_cell r v s) st = add_string_cell K r v s st"
| "do_call K (Add_string_cell_str m v s) st = with_mixedref m (\<lambda>r. add_string_cell K r v s) st"
| "do_call K (Add_merged_string_cell a b v s) st = add_merged_string_cell K a b v s st"
| "do_call K (Add_merged_string_cell_str ma mb v s) st =
     with_mixedref ma (\<lambda>a. with_mixedref mb (\<lambda>b. add_merged_string_cell K a b v s)) st"
| "do_call K (Set_column_width c w) (cell_styles, sheet) =
     ((cell_styles, fst (set_column_width c w sheet)), snd (set_column_width c w sheet))"
| "do_call K (Set_column_width_str c w) (cell_styles, sheet) =
     ((cell_styles, fst (set_column_width_str c w sheet)), snd (set_column_width_str c w sheet))"
| "do_call K (Set_row_height r h) (cell_styles, sheet) =
     ((cell_styles, fst (set_row_height K r h sheet)), snd (set_row_height K r h sheet))"
| "do_call K (Workbook_addStyle s) (cell_styles, sheet) =
     ((fst (addStyle s cell_styles), sheet), Inr ())"

fun do_calls :: "limits \<Rightarrow> sheet_call list \<Rightarrow> sheet_state \<Rightarrow> sheet_state" where
  "do_calls K [] st = st"
| "do_calls K (c # cs) st = do_calls K cs (fst (do_call K c st))"

text \<open>
  What every sequence of calls keeps true of a sheet: the cells are in strictly
  increasing order of \<open>cell_sort_compare\<close> and inside the grid, the width and
  height overrides are in strictly increasing order of their index, and the corners of
  the merges are inside the grid.
\<close>

definition sheet_inv :: "Sheet \<Rightarrow> bool" where
  "sheet_inv sheet \<longleftrightarrow>
     sorted_wrt cell_sort_compare (cells sheet)
     \<and> list_all (\<lambda>c. \<not> ref_out_of_bounds (integerref c)) (cells sheet)
     \<and> sorted_wrt column_widths_sort_compare (column_widths sheet)
     \<and> sorted_wrt row_heights_sort_compare (row_heights sheet)
     \<and> list_all (\<lambda>m. \<not> ref_out_of_bounds (start_ref m) \<and> \<not> ref_out_of_bounds (end_ref m))
           (merged_cells sheet)"

text \<open>The key that \<open>cell_sort_compare\<close> orders by: row first, then column.\<close>

definition ref_key :: "integerref_t \<Rightarrow> nat" where
  "ref_key r = unat (row r) * 2 ^ 32 + unat (col r)"

text \<open>
  The calls that add one cell, the style they pass, and the calls that add one cell at
  a given reference with a value inside the limits of its kind.
\<close>

fun single_cell_add :: "sheet_call \<Rightarrow> bool" where
  "single_cell_add (Add_number_cell r v s) = True"
| "single_cell_add (Add_number_cell_str m v s) = True"
| "single_cell_add (Add_formula_cell r v s) = True"
| "single_cell_add (Add_formula_cell_str m v s) = True"
| "single_cell_add (Add_string_cell r v s) = True"
| "single_cell_add (Add_string_cell_str m v s) = True"
| "single_cell_add c = False"

fun call_style :: "sheet_call \<Rightarrow> cell_style_t" where
  "call_style (Add_number_cell r v s) = s"
| "call_style (Add_number_cell_str m v s) = s"
| "call_style (Add_merged_number_cell a b v s) = s"
| "call_style (Add_merged_number_cell_str ma mb v s) = s"
| "call_style (Add_formula_cell r v s) = s"
| "call_style (Add_formula_cell_str m v s) = s"
| "call_style (Add_merged_formula_cell a b v s) = s"
| "call_style (Add_merged_formula_cell_str ma mb v s) = s"
| "call_style (Add_string_cell r v s) = s"
| "call_style (Add_string_cell_str m v s) = s"
| "call_style (Add_merged_string_cell a b v s) = s"
| "call_style (Add_merged_string_cell_str ma mb v s) = s"
| "call_style (Workbook_addStyle s) = s"
| "call_style c = generic_style"

definition string_within_limits :: "limits \<Rightarrow> string \<Rightarrow> bool" where
  "string_within_limits K v \<longleftrightarrow>
     length v \<le> MAX_STRING_LEN K \<and> count_list v CHR 0x0A \<le> MAX_STRING_LINE_BREAKS K"

fun single_add_at :: "limits \<Rightarrow> integerref_t \<Rightarrow> sheet_call \<Rightarrow> bool" where
  "single_add_at K r (Add_number_cell r' v s) = (r' = r)"
| "single_add_at K r (Add_number_cell_str m v s) = (mixedref_to_integerref m = Inr r)"
| "single_add_at K r (Add_formula_cell r' v s) = (r' = r \<and> length v \<le> MAX_FORMULA_LEN K)"
| "single_add_at K r (Add_formula_cell_str m v s) =
     (mixedref_to_integerref m = Inr r \<and> length v \<le> MAX_FORMULA_LEN K)"
| "single_add_at K r (Add_string_cell r' v s) = (r' = r \<and> string_within_limits K v)"
| "single_add_at K r (Add_string_cell_str m v s) =
     (mixedref_to_integerref m = Inr r \<and> string_within_limits K v)"
| "single_add_at K r c = False"

text \<open>Values for the parameters, for the worked examples.\<close>

definition example_limits :: limits where
  "example_limits = \<lparr>MAX_FORMULA_LEN = 8192, MAX_STRING_LEN = 32767, MAX_STRING_LINE_BREAKS = 253,
                      MIN_ROW_HEIGHT = Finite 0, MAX_ROW_HEIGHT = Finite 409\<rparr>"

section \<open>Rendering a sheet\<close>

text \<open>
  \<^verbatim>\<open>Sheet::generate_file\<close> appends one text after the other to \<^verbatim>\<open>file\<close>.  The
  model keeps the sequence of things appended (\<open>generate_pieces\<close>) apart from their
  text (\<open>piece_text\<close>); the file is the concatenation of the texts.  The closing
  \<^verbatim>\<open></row></sheetData>\<close> that the source appends as one literal is the two pieces
  \<open>Row_close\<close> and \<open>SheetData_close\<close>.
\<close>

datatype xml_piece =
    Prolog
  | Cols_open
  | Col_custom uint32_t double
  | Col_bestfit uint32_t
  | Cols_close
  | SheetData_empty
  | SheetData_open
  | Row_open uint32_t "double option"
  | Row_close
  | Cell cell_t
  | SheetData_close
  | MergeCells_open nat
  | MergeCell merged_cell_t
  | MergeCells_close
  | Worksheet_close

text \<open>The body of the loop over \<^verbatim>\<open>used_columns\<close>.\<close>

definition col_piece :: "(uint32_t \<times> double) list \<Rightarrow> uint32_t \<Rightarrow> xml_piece" where
  "col_piece widths used_col =
     (case set_find column_widths_sort_compare (used_col, Finite 0) widths of
        Some col_widths_itr \<Rightarrow> Col_custom used_col (snd col_widths_itr)
      | None \<Rightarrow> Col_bestfit used_col)"

text \<open>
  The loop over \<^verbatim>\<open>cells\<close>; the last argument is \<^verbatim>\<open>this_row\<close>, which starts
  at 0.
\<close>

fun row_pieces :: "(uint32_t \<times> double) list \<Rightarrow> cell_t list \<Rightarrow> uint32_t \<Rightarrow> xml_piece list" where
  "row_pieces heights [] this_row = []"
| "row_pieces heights (this_cell # rest) this_row =
     (if row (integerref this_cell) > this_row
      then (if this_row > 0 then [Row_close] else [])
           @ [Row_open (row (integerref this_cell))
                (map_option snd
                   (set_find row_heights_sort_compare (row (integerref this_cell), Finite 0) heights))]
           @ [Cell this_cell]
           @ row_pieces heights rest (row (integerref this_cell))
      else [Cell this_cell] @ row_pieces heights rest this_row)"

definition generate_pieces :: "Sheet \<Rightarrow> xml_piece list" where
  "generate_pieces sheet =
     [Prolog, Cols_open]
     @ map (col_piece (column_widths sheet)) (used_columns sheet)
     @ [Cols_close]
     @ (if cells sheet = [] then [SheetData_empty]
        else [SheetData_open] @ row_pieces (row_heights sheet) (cells sheet) 0
             @ [Row_close, SheetData_close])
     @ (if merged_cells sheet \<noteq> []
        then [MergeCells_open (length (merged_cells sheet))]
             @ map MergeCell (merged_cells sheet) @ [MergeCells_close]
        else [])
     @ [Worksheet_close]"

text \<open>
  The text of a piece.  \<^verbatim>\<open>std::to_string\<close> on a \<^verbatim>\<open>double\<close> is the parameter
  \<open>dts\<close>.  The text of a cell or of a merge needs \<open>integerref_to_mixedref\<close>, which
  can throw.
\<close>

definition cell_text :: "(double \<Rightarrow> string) \<Rightarrow> cell_t \<Rightarrow> error + string" where
  \<open>cell_text dts this_cell =
     (case integerref_to_mixedref (integerref this_cell) of
        Inl e \<Rightarrow> Inl e
      | Inr mixedref \<Rightarrow>
          Inr (case type this_cell of
             NUMBER \<Rightarrow>
               ''<c r="'' @ mixedref @ ''"''
               @ '' s="'' @ to_string_nat (style_index this_cell) @ ''"''
               @ ''><v>'' @ dts (num_val this_cell) @ ''</v></c>''
           | FORMULA \<Rightarrow>
               ''<c r="'' @ mixedref @ ''"''
               @ '' s="'' @ to_string_nat (style_index this_cell) @ ''"''
               @ ''><f>'' @ str_fml_val this_cell @ ''</f></c>''
           | STRING \<Rightarrow>
               ''<c r="'' @ mixedref @ ''"''
               @ '' s="'' @ to_string_nat (style_index this_cell) @ ''" ''
               @ ''t="inlineStr"><is><t>'' @ str_fml_val this_cell @ ''</t></is></c>''
           | EMPTY \<Rightarrow>
               ''<c r="'' @ mixedref @ ''"''
               @ '' s="'' @ to_string_nat (style_index this_cell) @ ''"/>''))\<close>

definition piece_text :: "(double \<Rightarrow> string) \<Rightarrow> xml_piece \<Rightarrow> error + string" where
  \<open>piece_text dts p =
     (case p of
        Prolog \<Rightarrow> Inr (
          ''<?xml version="1.0" encoding="UTF-8" standalone="yes"?>''
          @ ''<worksheet xmlns="http://schemas.openxmlformats.org/spreadsheetml/2006/main" xmlns:r="http://schemas.openxmlformats.org/officeDocument/2006/relationships" xmlns:mc="http://schemas.openxmlformats.org/markup-compatibility/2006">''
          @ ''<sheetViews><sheetView workbookViewId="0"/></sheetViews>''
          @ ''<sheetFormatPr defaultRowHeight="17"/>'')
      | Cols_open \<Rightarrow> Inr ''<cols>''
      | Col_custom c w \<Rightarrow> Inr (
          ''<col min="'' @ to_string c @ ''" max="'' @ to_string c @ ''" width="'' @ dts w
          @ ''" customWidth="1"/>'')
      | Col_bestfit c \<Rightarrow> Inr (
          ''<col min="'' @ to_string c @ ''" max="'' @ to_string c @ ''" width="9.005" bestFit="1"/>'')
      | Cols_close \<Rightarrow> Inr ''</cols>''
      | SheetData_empty \<Rightarrow> Inr ''<sheetData/>''
      | SheetData_open \<Rightarrow> Inr ''<sheetData>''
      | Row_open r None \<Rightarrow> Inr (''<row r="'' @ to_string r @ ''"'' @ ''>'')
      | Row_open r (Some h) \<Rightarrow> Inr (
          ''<row r="'' @ to_string r @ ''"'' @ '' ht="'' @ dts h @ ''" customHeight="1"'' @ ''>'')
      | Row_close \<Rightarrow> Inr ''</row>''
      | Cell this_cell \<Rightarrow> cell_text dts this_cell
      | SheetData_close \<Rightarrow> Inr ''</sheetData>''
      | MergeCells_open n \<Rightarrow> Inr (''<mergeCells count="'' @ to_string_nat n @ ''">'')
      | MergeCell this_merge \<Rightarrow>
          (case integerref_to_mixedref (start_ref this_merge) of
             Inl e \<Rightarrow> Inl e
           | Inr start_mixedref \<Rightarrow>
               (case integerref_to_mixedref (end_ref this_merge) of
                  Inl e \<Rightarrow> Inl e
                | Inr end_mixedref \<Rightarrow>
                    Inr (''<mergeCell ref="'' @ start_mixedref @ '':'' @ end_mixedref @ ''"/>'')))
      | MergeCells_close \<Rightarrow> Inr ''</mergeCells>''
      | Worksheet_close \<Rightarrow> Inr ''</worksheet>'')\<close>

text \<open>
  Appending the texts in order; the first throw ends the rendering.  The function is
  \<^verbatim>\<open>Sheet::generate_file\<close>, named \<open>Sheet_generate_file\<close> here.
\<close>

fun append_texts :: "(error + string) list \<Rightarrow> error + string" where
  "append_texts [] = Inr []"
| "append_texts (Inl e # ts) = Inl e"
| "append_texts (Inr s # ts) = (case append_texts ts of Inl e \<Rightarrow> Inl e | Inr file \<Rightarrow> Inr (s @ file))"

definition Sheet_generate_file :: "(double \<Rightarrow> string) \<Rightarrow> Sheet \<Rightarrow> error + string" where
  "Sheet_generate_file dts sheet = append_texts (map (piece_text dts) (generate_pieces sheet))"

text \<open>
  A reading of the pieces that accepts them when the rows are well formed.  It keeps the
  index of the last row opened (0 before the first), whether that row is still open, and
  the column of the last cell in it (0 before the first).  A row may open only when none
  is open and its index is above every index opened before; a cell may come only inside
  an open row, with that row's index and a column above the last one; a row may close
  only when open; nothing else may come inside an open row.
\<close>

fun rows_well_formed :: "xml_piece list \<Rightarrow> uint32_t \<Rightarrow> bool \<Rightarrow> uint32_t \<Rightarrow> bool" where
  "rows_well_formed [] last_row opn last_col = (\<not> opn)"
| "rows_well_formed (Row_open r h # ps) last_row opn last_col =
     (\<not> opn \<and> last_row < r \<and> rows_well_formed ps r True 0)"
| "rows_well_formed (Cell c # ps) last_row opn last_col =
     (opn \<and> row (integerref c) = last_row \<and> last_col < col (integerref c)
      \<and> rows_well_formed ps last_row True (col (integerref c)))"
| "rows_well_formed (Row_close # ps) last_row opn last_col =
     (opn \<and> rows_well_formed ps last_row False last_col)"
| "rows_well_formed (p # ps) last_row opn last_col =
     (\<not> opn \<and> rows_well_formed ps last_row False last_col)"

fun opened_rows :: "xml_piece list \<Rightarrow> uint32_t list" where
  "opened_rows [] = []"
| "opened_rows (Row_open r h # ps) = r # opened_rows ps"
| "opened_rows (p # ps) = opened_rows ps"

fun rendered_cells :: "xml_piece list \<Rightarrow> cell_t list" where
  "rendered_cells [] = []"
| "rendered_cells (Cell c # ps) = c # rendered_cells ps"
| "rendered_cells (p # ps) = rendered_cells ps"

text \<open>
  Reading the text of a sheet back.  \<open>tags\<close> gives, for every \<^verbatim>\<open><\<close> of the text in
  order, the characters after it up to the next \<^verbatim>\<open><\<close>.  The name of a tag ends at
  the first blank, \<^verbatim>\<open>>\<close> or \<^verbatim>\<open>/\<close>; the value of an attribute ends at the
  closing quote (character 0x22).
\<close>

fun tags :: "string \<Rightarrow> string list" where
  "tags [] = []"
| "tags (c # s) = (if c = CHR ''<'' then takeWhile (\<lambda>x. x \<noteq> CHR ''<'') s # tags s else tags s)"

definition tag_name :: "string \<Rightarrow> string" where
  "tag_name t = takeWhile (\<lambda>x. x \<noteq> CHR '' '' \<and> x \<noteq> CHR ''>'' \<and> x \<noteq> CHR ''/'') t"

definition attribute_value :: "string \<Rightarrow> string" where
  "attribute_value s = takeWhile (\<lambda>x. x \<noteq> CHR 0x22) s"

definition decimal_value :: "string \<Rightarrow> nat option" where
  "decimal_value s = (if s \<noteq> [] \<and> list_all isdigit_c s then Some (digits_value s) else None)"

text \<open>
  The elements of the text that matter for its rows: the start of a \<^verbatim>\<open>row\<close> element
  with the number in its \<^verbatim>\<open>r\<close> attribute, the end of a \<^verbatim>\<open>row\<close> element, and the
  start of a \<^verbatim>\<open>c\<close> element with the reference in its \<^verbatim>\<open>r\<close> attribute, read by
  \<open>mixedref_to_integerref\<close>.  A \<^verbatim>\<open>row\<close> or \<^verbatim>\<open>c\<close> tag whose \<^verbatim>\<open>r\<close> attribute is
  not its first attribute, or does not hold a number or a reference, is \<open>Unreadable\<close>.
  Other tags are no element of this kind.
\<close>

datatype xml_element = Row_start nat | Row_end | Cell_start integerref_t | Unreadable

definition tag_element :: "string \<Rightarrow> xml_element option" where
  \<open>tag_element t =
     (if tag_name t = ''row'' then
        (if take 7 t = ''row r="'' then
           (case decimal_value (attribute_value (drop 7 t)) of
              None \<Rightarrow> Some Unreadable
            | Some r \<Rightarrow> Some (Row_start r))
         else Some Unreadable)
      else if take 1 t = ''/'' \<and> tag_name (drop 1 t) = ''row'' then Some Row_end
      else if tag_name t = ''c'' then
        (if take 5 t = ''c r="'' then
           (case mixedref_to_integerref (attribute_value (drop 5 t)) of
              Inl e \<Rightarrow> Some Unreadable
            | Inr ref \<Rightarrow> Some (Cell_start ref))
         else Some Unreadable)
      else None)\<close>

definition elements :: "string \<Rightarrow> xml_element list" where
  "elements fl = List.map_filter tag_element (tags fl)"

text \<open>
  The rows of a text are well formed when a row starts only while none is open and with
  a number above the numbers of all rows started before, a cell starts only inside an
  open row, with that row's number and a column above the column of the cell before it
  in the row, a row ends only when open, and no row is left open.  The arguments after
  the elements are the number of the last row started (0 before the first), whether it
  is open, and the column of the last cell in it (0 before the first).
\<close>

fun elements_well_formed :: "xml_element list \<Rightarrow> nat \<Rightarrow> bool \<Rightarrow> uint32_t \<Rightarrow> bool" where
  "elements_well_formed [] last_row opn last_col = (\<not> opn)"
| "elements_well_formed (Row_start r # es) last_row opn last_col =
     (\<not> opn \<and> last_row < r \<and> elements_well_formed es r True 0)"
| "elements_well_formed (Cell_start ref # es) last_row opn last_col =
     (opn \<and> unat (row ref) = last_row \<and> last_col < col ref
      \<and> elements_well_formed es last_row True (col ref))"
| "elements_well_formed (Row_end # es) last_row opn last_col =
     (opn \<and> elements_well_formed es last_row False last_col)"
| "elements_well_formed (Unreadable # es) last_row opn last_col = False"

fun row_indices :: "xml_element list \<Rightarrow> nat list" where
  "row_indices [] = []"
| "row_indices (Row_start r # es) = r # row_indices es"
| "row_indices (e # es) = row_indices es"

fun cell_refs :: "xml_element list \<Rightarrow> integerref_t list" where
  "cell_refs [] = []"
| "cell_refs (Cell_start ref # es) = ref # cell_refs es"
| "cell_refs (e # es) = cell_refs es"

text \<open>
  The elements that the text of a piece holds when the values in it hold no
  \<^verbatim>\<open><\<close>.
\<close>

fun piece_elements :: "xml_piece \<Rightarrow> xml_element list" where
  "piece_elements (Row_open r h) = [Row_start (unat r)]"
| "piece_elements Row_close = [Row_end]"
| "piece_elements (Cell c) = [Cell_start (integerref c)]"
| "piece_elements p = []"

text \<open>
  \<^verbatim>\<open>std::to_string\<close> on the doubles of the worked examples, which are whole numbers
  from 0 on: the number and six decimals.
\<close>

definition example_double_to_string :: "double \<Rightarrow> string" where
  "example_double_to_string d =
     (case d of
        Finite q \<Rightarrow> to_string_nat (nat \<lfloor>q\<rfloor>) @ ''.000000''
      | PosInf \<Rightarrow> ''inf''
      | NegInf \<Rightarrow> ''-inf''
      | NaN \<Rightarrow> ''nan'')"

section \<open>IttyZip\<close>

text \<open>
  The \<^verbatim>\<open>std::tm\<close> fields that the code reads.
\<close>

record tm =
  tm_sec :: int
  tm_min :: int
  tm_hour :: int
  tm_mday :: int
  tm_mon :: int
  tm_year :: int

record dostimedate_t =
  time :: uint16_t
  date :: uint16_t

text \<open>Division of \<^verbatim>\<open>int\<close> in C++ truncates towards zero.\<close>

definition cpp_div :: "int \<Rightarrow> int \<Rightarrow> int" where
  "cpp_div a b = sgn a * sgn b * (\<bar>a\<bar> div \<bar>b\<bar>)"

text \<open>
  \<^verbatim>\<open>dosTimeDate\<close>, on the local time that \<^verbatim>\<open>localtime_locked\<close> returned.  An
  \<^verbatim>\<open>int\<close> combined with an \<^verbatim>\<open>unsigned\<close> mask is converted to 32 bits without
  sign first; the result of each line is cut to the 16 bits of the field.
\<close>

definition dosTimeDate :: "tm \<Rightarrow> dostimedate_t" where
  "dosTimeDate timestruct =
     (let time0 = ucast ((0x001F :: uint32_t) AND word_of_int (cpp_div (min (tm_sec timestruct) 59) 2)) :: uint16_t;
          time1 = time0 OR ucast ((0x07E0 :: uint32_t) AND word_of_int (tm_min timestruct * 2 ^ 5));
          time2 = time1 OR ucast ((0xF800 :: uint32_t) AND word_of_int (tm_hour timestruct * 2 ^ 11));
          date0 = ucast ((0x001F :: uint32_t) AND word_of_int (tm_mday timestruct)) :: uint16_t;
          date1 = date0 OR ucast ((0x01E0 :: uint32_t) AND word_of_int ((tm_mon timestruct + 1) * 2 ^ 5));
          date2 = (if tm_year timestruct \<ge> 80 \<and> tm_year timestruct - 80 < 128
                   then date1 OR ucast ((0xFE00 :: uint32_t) AND word_of_int ((tm_year timestruct - 80) * 2 ^ 9))
                   else date1)
      in \<lparr>time = time2, date = date2\<rparr>)"

definition crc32_table :: "uint32_t list" where
  "crc32_table = [
      0x00000000, 0x77073096, 0xEE0E612C, 0x990951BA, 0x076DC419, 0x706AF48F,
      0xE963A535, 0x9E6495A3, 0x0EDB8832, 0x79DCB8A4, 0xE0D5E91E, 0x97D2D988,
      0x09B64C2B, 0x7EB17CBD, 0xE7B82D07, 0x90BF1D91, 0x1DB71064, 0x6AB020F2,
      0xF3B97148, 0x84BE41DE, 0x1ADAD47D, 0x6DDDE4EB, 0xF4D4B551, 0x83D385C7,
      0x136C9856, 0x646BA8C0, 0xFD62F97A, 0x8A65C9EC, 0x14015C4F, 0x63066CD9,
      0xFA0F3D63, 0x8D080DF5, 0x3B6E20C8, 0x4C69105E, 0xD56041E4, 0xA2677172,
      0x3C03E4D1, 0x4B04D447, 0xD20D85FD, 0xA50AB56B, 0x35B5A8FA, 0x42B2986C,
      0xDBBBC9D6, 0xACBCF940, 0x32D86CE3, 0x45DF5C75, 0xDCD60DCF, 0xABD13D59,
      0x26D930AC, 0x51DE003A, 0xC8D75180, 0xBFD06116, 0x21B4F4B5, 0x56B3C423,
      0xCFBA9599, 0xB8BDA50F, 0x2802B89E, 0x5F058808, 0xC60CD9B2, 0xB10BE924,
      0x2F6F7C87, 0x58684C11, 0xC1611DAB, 0xB6662D3D, 0x76DC4190, 0x01DB7106,
      0x98D220BC, 0xEFD5102A, 0x71B18589, 0x06B6B51F, 0x9FBFE4A5, 0xE8B8D433,
      0x7807C9A2, 0x0F00F934, 0x9609A88E, 0xE10E9818, 0x7F6A0DBB, 0x086D3D2D,
      0x91646C97, 0xE6635C01, 0x6B6B51F4, 0x1C6C6162, 0x856530D8, 0xF262004E,
      0x6C0695ED, 0x1B01A57B, 0x8208F4C1, 0xF50FC457, 0x65B0D9C6, 0x12B7E950,
      0x8BBEB8EA, 0xFCB9887C, 0x62DD1DDF, 0x15DA2D49, 0x8CD37CF3, 0xFBD44C65,
      0x4DB26158, 0x3AB551CE, 0xA3BC0074, 0xD4BB30E2, 0x4ADFA541, 0x3DD895D7,
      0xA4D1C46D, 0xD3D6F4FB, 0x4369E96A, 0x346ED9FC, 0xAD678846, 0xDA60B8D0,
      0x44042D73, 0x33031DE5, 0xAA0A4C5F, 0xDD0D7CC9, 0x5005713C, 0x270241AA,
      0xBE0B1010, 0xC90C2086, 0x5768B525, 0x206F85B3, 0xB966D409, 0xCE61E49F,
      0x5EDEF90E, 0x29D9C998, 0xB0D09822, 0xC7D7A8B4, 0x59B33D17, 0x2EB40D81,
      0xB7BD5C3B, 0xC0BA6CAD, 0xEDB88320, 0x9ABFB3B6, 0x03B6E20C, 0x74B1D29A,
      0xEAD54739, 0x9DD277AF, 0x04DB2615, 0x73DC1683, 0xE3630B12, 0x94643B84,
      0x0D6D6A3E, 0x7A6A5AA8, 0xE40ECF0B, 0x9309FF9D, 0x0A00AE27, 0x7D079EB1,
      0xF00F9344, 0x8708A3D2, 0x1E01F268, 0x6906C2FE, 0xF762575D, 0x806567CB,
      0x196C3671, 0x6E6B06E7, 0xFED41B76, 0x89D32BE0, 0x10DA7A5A, 0x67DD4ACC,
      0xF9B9DF6F, 0x8EBEEFF9, 0x17B7BE43, 0x60B08ED5, 0xD6D6A3E8, 0xA1D1937E,
      0x38D8C2C4, 0x4FDFF252, 0xD1BB67F1, 0xA6BC5767, 0x3FB506DD, 0x48B2364B,
      0xD80D2BDA, 0xAF0A1B4C, 0x36034AF6, 0x41047A60, 0xDF60EFC3, 0xA867DF55,
      0x316E8EEF, 0x4669BE79, 0xCB61B38C, 0xBC66831A, 0x256FD2A0, 0x5268E236,
      0xCC0C7795, 0xBB0B4703, 0x220216B9, 0x5505262F, 0xC5BA3BBE, 0xB2BD0B28,
      0x2BB45A92, 0x5CB36A04, 0xC2D7FFA7, 0xB5D0CF31, 0x2CD99E8B, 0x5BDEAE1D,
      0x9B64C2B0, 0xEC63F226, 0x756AA39C, 0x026D930A, 0x9C0906A9, 0xEB0E363F,
      0x72076785, 0x05005713, 0x95BF4A82, 0xE2B87A14, 0x7BB12BAE, 0x0CB61B38,
      0x92D28E9B, 0xE5D5BE0D, 0x7CDCEFB7, 0x0BDBDF21, 0x86D3D2D4, 0xF1D4E242,
      0x68DDB3F8, 0x1FDA836E, 0x81BE16CD, 0xF6B9265B, 0x6FB077E1, 0x18B74777,
      0x88085AE6, 0xFF0F6A70, 0x66063BCA, 0x11010B5C, 0x8F659EFF, 0xF862AE69,
      0x616BFFD3, 0x166CCF45, 0xA00AE278, 0xD70DD2EE, 0x4E048354, 0x3903B3C2,
      0xA7672661, 0xD06016F7, 0x4969474D, 0x3E6E77DB, 0xAED16A4A, 0xD9D65ADC,
      0x40DF0B66, 0x37D83BF0, 0xA9BCAE53, 0xDEBB9EC5, 0x47B2CF7F, 0x30B5FFE9,
      0xBDBDF21C, 0xCABAC28A, 0x53B39330, 0x24B4A3A6, 0xBAD03605, 0xCDD70693,
      0x54DE5729, 0x23D967BF, 0xB3667A2E, 0xC4614AB8, 0x5D681B02, 0x2A6F2B94,
      0xB40BBE37, 0xC30C8EA1, 0x5A05DF1B, 0x2D02EF8D]"

text \<open>The loop of \<^verbatim>\<open>crc32\<close> over the bytes, and the function itself.\<close>

fun crc32_loop :: "string \<Rightarrow> uint32_t \<Rightarrow> uint32_t" where
  "crc32_loop [] crc_reg = crc_reg"
| "crc32_loop (c # cs) crc_reg =
     crc32_loop cs
       (drop_bit 8 crc_reg
        XOR crc32_table ! unat ((ucast ((0x000000FF :: uint32_t) AND crc_reg) :: 8 word)
                                XOR (word_of_nat (of_char c) :: 8 word)))"

definition crc32 :: "string \<Rightarrow> uint32_t" where
  "crc32 data = crc32_loop data 0xFFFFFFFF XOR 0xFFFFFFFF"

text \<open>
  \<^verbatim>\<open>uint16_to_buffer\<close> and \<^verbatim>\<open>uint32_to_buffer\<close>: the bytes written to the buffer,
  lowest first.
\<close>

definition byte_of :: "'a::len word \<Rightarrow> char" where
  "byte_of w = char_of (unat w)"

definition uint16_to_buffer :: "uint16_t \<Rightarrow> string" where
  "uint16_to_buffer w = [byte_of (0x00FF AND w), byte_of (0x00FF AND drop_bit 8 w)]"

definition uint32_to_buffer :: "uint32_t \<Rightarrow> string" where
  "uint32_to_buffer w =
     [byte_of (0x000000FF AND w), byte_of (0x000000FF AND drop_bit 8 w),
      byte_of (0x000000FF AND drop_bit 16 w), byte_of (0x000000FF AND drop_bit 24 w)]"

record localheader_t =
  lh_signature :: uint32_t
  lh_extract_version :: uint16_t
  lh_general_bit_flag :: uint16_t
  lh_compression_method :: uint16_t
  lh_file_mod_timedate :: dostimedate_t
  lh_crc32 :: uint32_t
  lh_size_compressed :: uint32_t
  lh_size_uncompressed :: uint32_t
  lh_filename_length :: uint16_t
  lh_extra_field_length :: uint16_t
  lh_filename :: string

record dirheader_t =
  dh_signature :: uint32_t
  dh_version_made_by :: uint16_t
  dh_extract_version :: uint16_t
  dh_general_bit_flag :: uint16_t
  dh_compression_method :: uint16_t
  dh_file_mod_timedate :: dostimedate_t
  dh_crc32 :: uint32_t
  dh_size_compressed :: uint32_t
  dh_size_uncompressed :: uint32_t
  dh_filename_length :: uint16_t
  dh_extra_field_length :: uint16_t
  dh_comment_length :: uint16_t
  dh_disk_number_start :: uint16_t
  dh_internal_attributes :: uint16_t
  dh_external_attributes :: uint32_t
  dh_local_header_offset :: uint32_t
  dh_filename :: string

record endrecord_t =
  er_signature :: uint32_t
  er_disk_number :: uint16_t
  er_dir_start_disk_number :: uint16_t
  er_this_disk_entries :: uint16_t
  er_total_entries :: uint16_t
  er_central_dir_size :: uint32_t
  er_central_dir_offset :: uint32_t
  er_comment_length :: uint16_t

text \<open>
  The output stream: whether a file is open, the fail bit, and the bytes written to the
  file so far.  A write to a stream that is open and has not failed appends its bytes;
  the model has no write that fails on its own.
\<close>

record ofstream =
  is_open :: bool
  fail :: bool
  written :: string

definition ofstream_write :: "string \<Rightarrow> ofstream \<Rightarrow> ofstream" where
  "ofstream_write bytes f =
     (if is_open f \<and> \<not> fail f then f\<lparr>written := written f @ bytes\<rparr> else f\<lparr>fail := True\<rparr>)"

text \<open>The data members of \<^verbatim>\<open>IttyZip\<close>, and the default constructor.\<close>

record IttyZip =
  num_files :: uint16_t
  out_file :: ofstream
  opened :: bool
  next_offset :: uint32_t
  central_directory :: string
  filenames :: "string set"

definition new_IttyZip :: IttyZip where
  "new_IttyZip = \<lparr>num_files = 0, out_file = \<lparr>is_open = False, fail = False, written = []\<rparr>,
                   opened = False, next_offset = 0, central_directory = [], filenames = {}\<rparr>"

text \<open>
  What the code reads from its surroundings: whether the output file can be created,
  the local time that \<^verbatim>\<open>dosTimeDate\<close> sees, the text that \<^verbatim>\<open>strftime\<close> makes of the
  time in UTC, and \<^verbatim>\<open>std::to_string\<close> on a \<^verbatim>\<open>double\<close>.
\<close>

record environment =
  can_open :: bool
  local_time :: tm
  utc_timestamp :: string
  double_to_string :: "double \<Rightarrow> string"

text \<open>
  \<^verbatim>\<open>IttyZip::open\<close>.  Opening with \<^verbatim>\<open>std::ios::trunc\<close> empties the file; an open
  that fails sets the fail bit of the stream.
\<close>

definition IttyZip_open :: "environment \<Rightarrow> string \<Rightarrow> IttyZip \<Rightarrow> IttyZip \<times> (error + unit)" where
  "IttyZip_open env outputFilename z =
     (if opened z \<or> is_open (out_file z) then (z, Inl (exception DOUBLE_OPEN_MESG))
      else if \<not> can_open env
      then (z\<lparr>opened := False, num_files := 0, next_offset := 0, central_directory := [],
               out_file := (out_file z)\<lparr>fail := True\<rparr>\<rparr>,
            Inl (exception CANNOT_OPEN_MESG))
      else (z\<lparr>opened := True, num_files := 0, next_offset := 0, central_directory := [],
               out_file := \<lparr>is_open = True, fail = False, written = []\<rparr>\<rparr>,
            Inr ()))"

text \<open>
  \<^verbatim>\<open>generateHeaders\<close>: the local header and the central directory header of one
  file.
\<close>

definition generateHeaders ::
  "environment \<Rightarrow> IttyZip \<Rightarrow> string \<Rightarrow> uint32_t \<Rightarrow> uint32_t \<Rightarrow> localheader_t \<times> dirheader_t" where
  "generateHeaders env z fname file_size file_crc32 =
     (\<lparr>lh_signature = 0x04034b50, lh_extract_version = 0x000A, lh_general_bit_flag = 0,
       lh_compression_method = 0, lh_file_mod_timedate = dosTimeDate (local_time env),
       lh_crc32 = file_crc32, lh_size_compressed = file_size, lh_size_uncompressed = file_size,
       lh_filename_length = word_of_nat (length fname), lh_extra_field_length = 0,
       lh_filename = take (unat (word_of_nat (length fname) :: uint16_t)) fname\<rparr>,
      \<lparr>dh_signature = 0x02014b50, dh_version_made_by = 0x000A, dh_extract_version = 0x000A,
       dh_general_bit_flag = 0, dh_compression_method = 0,
       dh_file_mod_timedate = dosTimeDate (local_time env),
       dh_crc32 = file_crc32, dh_size_compressed = file_size, dh_size_uncompressed = file_size,
       dh_filename_length = word_of_nat (length fname), dh_extra_field_length = 0,
       dh_comment_length = 0, dh_disk_number_start = 0, dh_internal_attributes = 0,
       dh_external_attributes = 0, dh_local_header_offset = next_offset z,
       dh_filename = take (unat (word_of_nat (length fname) :: uint16_t)) fname\<rparr>)"

text \<open>The bytes that \<^verbatim>\<open>writeLocalheader\<close> writes, in the order of its writes.\<close>

definition localheader_bytes :: "localheader_t \<Rightarrow> string" where
  "localheader_bytes h =
     uint32_to_buffer (lh_signature h)
     @ uint16_to_buffer (lh_extract_version h)
     @ uint16_to_buffer (lh_general_bit_flag h)
     @ uint16_to_buffer (lh_compression_method h)
     @ uint16_to_buffer (time (lh_file_mod_timedate h))
     @ uint16_to_buffer (date (lh_file_mod_timedate h))
     @ uint32_to_buffer (lh_crc32 h)
     @ uint32_to_buffer (lh_size_compressed h)
     @ uint32_to_buffer (lh_size_uncompressed h)
     @ uint16_to_buffer (lh_filename_length h)
     @ uint16_to_buffer (lh_extra_field_length h)
     @ take (unat (lh_filename_length h)) (lh_filename h)"

definition writeLocalheader :: "localheader_t \<Rightarrow> IttyZip \<Rightarrow> IttyZip \<times> (error + uint32_t)" where
  "writeLocalheader h z =
     (if \<not> opened z then (z, Inl (exception NOT_OPENED_MESG))
      else if \<not> is_open (out_file z) then (z, Inl (exception UNEXPECTED_CLOSE_MESG))
      else if fail (out_file z) then (z, Inl (exception OUTPUT_FAIL_MESG))
      else (z\<lparr>out_file := ofstream_write (localheader_bytes h) (out_file z)\<rparr>,
            Inr (30 + ucast (lh_filename_length h))))"

text \<open>The bytes that \<^verbatim>\<open>storeDirheader\<close> appends to \<^verbatim>\<open>central_directory\<close>.\<close>

definition dirheader_bytes :: "dirheader_t \<Rightarrow> string" where
  "dirheader_bytes h =
     uint32_to_buffer (dh_signature h)
     @ uint16_to_buffer (dh_version_made_by h)
     @ uint16_to_buffer (dh_extract_version h)
     @ uint16_to_buffer (dh_general_bit_flag h)
     @ uint16_to_buffer (dh_compression_method h)
     @ uint16_to_buffer (time (dh_file_mod_timedate h))
     @ uint16_to_buffer (date (dh_file_mod_timedate h))
     @ uint32_to_buffer (dh_crc32 h)
     @ uint32_to_buffer (dh_size_compressed h)
     @ uint32_to_buffer (dh_size_uncompressed h)
     @ uint16_to_buffer (dh_filename_length h)
     @ uint16_to_buffer (dh_extra_field_length h)
     @ uint16_to_buffer (dh_comment_length h)
     @ uint16_to_buffer (dh_disk_number_start h)
     @ uint16_to_buffer (dh_internal_attributes h)
     @ uint32_to_buffer (dh_external_attributes h)
     @ uint32_to_buffer (dh_local_header_offset h)
     @ take (unat (dh_filename_length h)) (dh_filename h)"

definition storeDirheader :: "dirheader_t \<Rightarrow> IttyZip \<Rightarrow> IttyZip" where
  "storeDirheader h z = z\<lparr>central_directory := central_directory z @ dirheader_bytes h\<rparr>"

text \<open>\<^verbatim>\<open>IttyZip::addFile\<close>.\<close>

definition addFile :: "environment \<Rightarrow> string \<Rightarrow> string \<Rightarrow> IttyZip \<Rightarrow> IttyZip \<times> (error + unit)" where
  "addFile env fname contents z =
     (if \<not> opened z then (z, Inl (exception NOT_OPENED_MESG))
      else if \<not> is_open (out_file z) then (z, Inl (exception UNEXPECTED_CLOSE_MESG))
      else if fail (out_file z) then (z, Inl (exception OUTPUT_FAIL_MESG))
      else
        let file_headers = generateHeaders env z fname (word_of_nat (length contents)) (crc32 contents)
        in if lh_filename (fst file_headers) \<in> filenames z
           then (z, Inl (exception DUPLICATE_FILE_MESG))
           else
             let z1 = z\<lparr>filenames := insert (lh_filename (fst file_headers)) (filenames z)\<rparr>;
                 z2 = storeDirheader (snd file_headers) z1
             in case writeLocalheader (fst file_headers) z2 of
                  (z3, Inl e) \<Rightarrow> (z3, Inl e)
                | (z3, Inr n) \<Rightarrow>
                    (z3\<lparr>next_offset := next_offset z3 + n + word_of_nat (length contents),
                        out_file := ofstream_write contents (out_file z3),
                        num_files := num_files z3 + 1\<rparr>,
                     Inr ()))"

definition generateEndRecord :: "IttyZip \<Rightarrow> endrecord_t" where
  "generateEndRecord z =
     \<lparr>er_signature = 0x06054b50, er_disk_number = 0, er_dir_start_disk_number = 0,
      er_this_disk_entries = num_files z, er_total_entries = num_files z,
      er_central_dir_size = word_of_nat (length (central_directory z)),
      er_central_dir_offset = next_offset z, er_comment_length = 0\<rparr>"

definition endrecord_bytes :: "endrecord_t \<Rightarrow> string" where
  "endrecord_bytes r =
     uint32_to_buffer (er_signature r)
     @ uint16_to_buffer (er_disk_number r)
     @ uint16_to_buffer (er_dir_start_disk_number r)
     @ uint16_to_buffer (er_this_disk_entries r)
     @ uint16_to_buffer (er_total_entries r)
     @ uint32_to_buffer (er_central_dir_size r)
     @ uint32_to_buffer (er_central_dir_offset r)
     @ uint16_to_buffer (er_comment_length r)"

definition writeEndRecord :: "endrecord_t \<Rightarrow> IttyZip \<Rightarrow> IttyZip \<times> (error + unit)" where
  "writeEndRecord r z =
     (if \<not> opened z then (z, Inl (exception NOT_OPENED_MESG))
      else if \<not> is_open (out_file z) then (z, Inl (exception UNEXPECTED_CLOSE_MESG))
      else if fail (out_file z) then (z, Inl (exception OUTPUT_FAIL_MESG))
      else (z\<lparr>out_file := ofstream_write (endrecord_bytes r) (out_file z)\<rparr>, Inr ()))"

text \<open>
  \<^verbatim>\<open>IttyZip::finalize\<close>.  The test for an empty archive comes first.  Closing the
  stream keeps the bytes of the file.
\<close>

definition finalize :: "IttyZip \<Rightarrow> IttyZip \<times> (error + unit)" where
  "finalize z =
     (if num_files z = 0 \<or> next_offset z = 0 \<or> central_directory z = []
      then (z, Inl (exception EMPTY_FINALIZE_MESG))
      else if \<not> opened z then (z, Inl (exception NOT_OPENED_MESG))
      else if \<not> is_open (out_file z) then (z, Inl (exception UNEXPECTED_CLOSE_MESG))
      else if fail (out_file z) then (z, Inl (exception OUTPUT_FAIL_MESG))
      else
        let z1 = z\<lparr>out_file := ofstream_write (central_directory z) (out_file z)\<rparr>
        in case writeEndRecord (generateEndRecord z1) z1 of
             (z2, Inl e) \<Rightarrow> (z2, Inl e)
           | (z2, Inr u) \<Rightarrow>
               (z2\<lparr>out_file := (out_file z2)\<lparr>is_open := False\<rparr>, opened := False,
                   next_offset := 0, central_directory := [], num_files := 0\<rparr>,
                Inr ()))"

section \<open>Workbook\<close>

record Workbook =
  sheets :: "Sheet list"
  cell_styles :: "cell_style_t list"
  archive :: IttyZip

















text \<open>Running one step after the other on the workbook; the first throw ends the run.\<close>

fun run_steps :: "('s \<Rightarrow> 's \<times> (error + unit)) list \<Rightarrow> 's \<Rightarrow> 's \<times> (error + unit)" where
  "run_steps [] s = (s, Inr ())"
| "run_steps (step # steps) s =
     (case step s of
        (s', Inl e) \<Rightarrow> (s', Inl e)
      | (s', Inr u) \<Rightarrow> run_steps steps s')"

definition archive_addFile ::
  "environment \<Rightarrow> string \<Rightarrow> (Workbook \<Rightarrow> string) \<Rightarrow> Workbook \<Rightarrow> Workbook \<times> (error + unit)" where
  "archive_addFile env fname contents wb =
     (wb\<lparr>archive := fst (addFile env fname (contents wb) (archive wb))\<rparr>,
      snd (addFile env fname (contents wb) (archive wb)))"
















section \<open>Properties of the column letters\<close>

lemma integer_to_column_loop_decreases:
  fixes integer :: uint32_t
  assumes "integer > 0"
  shows "unat ((integer - 1) div 26) < unat integer"
proof -
  have nz: "integer \<noteq> 0" using assms by auto
  then have pos: "0 < unat integer" by (simp add: unat_gt_0)
  have "unat (integer - 1) = unat integer - 1"
    using nz by (rule unat_minus_one)
  then have "unat ((integer - 1) div 26) = (unat integer - 1) div 26"
    by (simp add: unat_div)
  also have "\<dots> < unat integer" using pos by (simp add: div_less_iff_less_mult)
  finally show ?thesis .
qed

lemma integer_to_column_loop_unfold:
  "integer_to_column_loop w column =
     (if w > 0 then integer_to_column_loop ((w - 1) div 26) (col_digit w # column) else column)"
  by (subst integer_to_column_loop.simps) (simp add: col_digit_def)

lemma integer_to_column_loop_append:
  "integer_to_column_loop w column = integer_to_column_loop w [] @ column"
proof (induction "unat w" arbitrary: w column rule: less_induct)
  case less
  show ?case
  proof (cases "w > 0")
    case True
    let ?q = "(w - 1) div 26"
    have lt: "unat ?q < unat w" using True by (rule integer_to_column_loop_decreases)
    have "integer_to_column_loop w column = integer_to_column_loop ?q (col_digit w # column)"
      using True by (subst integer_to_column_loop_unfold) simp
    also have "\<dots> = integer_to_column_loop ?q [] @ (col_digit w # column)"
      using less[OF lt] by blast
    also have "\<dots> = (integer_to_column_loop ?q [] @ [col_digit w]) @ column" by simp
    also have "integer_to_column_loop ?q [] @ [col_digit w] = integer_to_column_loop ?q [col_digit w]"
      using less[OF lt, of "[col_digit w]"] by simp
    also have "\<dots> = integer_to_column_loop w []"
      using True by (subst (2) integer_to_column_loop_unfold) simp
    finally show ?thesis .
  next
    case False
    then show ?thesis by (simp add: integer_to_column_loop_unfold)
  qed
qed

lemma integer_to_column_loop_snoc:
  "w > 0 \<Longrightarrow> integer_to_column_loop w [] = integer_to_column_loop ((w - 1) div 26) [] @ [col_digit w]"
  by (subst integer_to_column_loop_unfold, subst integer_to_column_loop_append) simp

lemma col_digit_code:
  "(of_char (col_digit w) :: nat) = (if unat w mod 26 = 0 then 90 else unat w mod 26 + 64)"
proof -
  have lt: "unat (w mod 26) < 26" by (simp add: unat_mod)
  have "unat (w mod 26 + 64) = unat (w mod 26) + 64"
    using lt by (simp add: unat_word_ariths)
  then show ?thesis using lt
    by (auto simp: col_digit_def unat_mod unat_eq_zero[symmetric] simp del: unat_eq_zero)
qed

lemma col_digit_upper: "isupper_c (col_digit w)" "toupper_c (col_digit w) = col_digit w"
  by (auto simp: isupper_c_def toupper_c_def col_digit_code)

lemma bij26_step:
  assumes "0 < (n::nat)"
  shows "n = 26 * ((n - 1) div 26) + (if n mod 26 = 0 then 26 else n mod 26)"
proof -
  obtain m where m: "n = Suc m" using assms by (cases n) auto
  have d: "(if n mod 26 = 0 then 26 else n mod 26) = Suc (m mod 26)"
    unfolding m by (simp add: mod_Suc)
  have "m = 26 * (m div 26) + m mod 26" by simp
  then show ?thesis unfolding d using m by simp
qed

lemma col_digit_value:
  assumes "w > 0"
  shows "26 * ((w - 1) div 26) + char_to_uint32 (col_digit w) - 64 = w"
proof -
  have nz: "w \<noteq> 0" using assms by auto
  have pos: "0 < unat w" using nz by (simp add: unat_gt_0)
  have c: "char_to_uint32 (col_digit w) - 64
      = word_of_nat (if unat w mod 26 = 0 then 26 else unat w mod 26)"
    unfolding char_to_uint32_def col_digit_code by simp
  have "unat ((w - 1) div 26) = (unat w - 1) div 26"
    by (simp add: unat_div unat_minus_one[OF nz])
  then have "word_of_nat (unat ((w - 1) div 26)) = (word_of_nat ((unat w - 1) div 26) :: uint32_t)"
    by simp
  then have q: "(w - 1) div 26 = word_of_nat ((unat w - 1) div 26)" by simp
  have "26 * ((w - 1) div 26) + char_to_uint32 (col_digit w) - 64
      = 26 * ((w - 1) div 26) + (char_to_uint32 (col_digit w) - 64)" by simp
  also have "\<dots> = word_of_nat (26 * ((unat w - 1) div 26)
                         + (if unat w mod 26 = 0 then 26 else unat w mod 26))"
    unfolding c by (subst q) simp
  also have "\<dots> = word_of_nat (unat w)" using bij26_step[OF pos] by simp
  also have "\<dots> = w" by simp
  finally show ?thesis .
qed

lemma column_to_integer_loop_snoc:
  "column_to_integer_loop (cs @ [c]) acc =
     (case column_to_integer_loop cs acc of
        Inl e \<Rightarrow> Inl e
      | Inr i \<Rightarrow> if \<not> isupper_c (toupper_c c) then Inl (invalid_argument NonAlphaColumn)
                 else Inr (26 * (i + char_to_uint32 (toupper_c c) - 64)))"
  by (induction cs arbitrary: acc) auto

lemma column_to_integer_loop_letters:
  "column_to_integer_loop (integer_to_column_loop w []) 0 = Inr (26 * w)"
proof (induction "unat w" arbitrary: w rule: less_induct)
  case less
  show ?case
  proof (cases "w > 0")
    case True
    let ?q = "(w - 1) div 26"
    have lt: "unat ?q < unat w" using True by (rule integer_to_column_loop_decreases)
    have ih: "column_to_integer_loop (integer_to_column_loop ?q []) 0 = Inr (26 * ?q)"
      using less[OF lt] .
    show ?thesis
      unfolding integer_to_column_loop_snoc[OF True] column_to_integer_loop_snoc ih
      using col_digit_value[OF True] by (simp add: col_digit_upper)
  next
    case False
    then have "w = 0" by (simp add: word_greater_zero_iff)
    then show ?thesis by (simp add: integer_to_column_loop_unfold)
  qed
qed

lemma column_to_integer_letters:
  assumes "0 < w" "w \<le> MAX_COL"
  shows "column_to_integer (integer_to_column_loop w []) = Inr w"
proof -
  let ?q = "(w - 1) div 26"
  have s: "integer_to_column_loop w [] = integer_to_column_loop ?q [] @ [col_digit w]"
    using assms(1) by (rule integer_to_column_loop_snoc)
  have v: "26 * ?q + char_to_uint32 (col_digit w) - 64 = w"
    using assms(1) by (rule col_digit_value)
  show ?thesis
    unfolding column_to_integer_def s
    using assms(2) v by (simp add: column_to_integer_loop_letters col_digit_upper)
qed

text \<open>
  C1.  For every column index \<open>i\<close> with \<open>1 \<le> i \<le> 16384\<close>, \<open>integer_to_column\<close>
  returns a letter sequence \<open>s\<close>, \<open>column_to_integer s\<close> returns \<open>i\<close>, and
  converting that result back with \<open>integer_to_column\<close> gives \<open>s\<close> again.
\<close>

theorem column_letter_roundtrip:
  assumes "1 \<le> i" "i \<le> MAX_COL"
  shows "\<exists>s. integer_to_column i = Inr s \<and> column_to_integer s = Inr i
           \<and> (case column_to_integer s of Inl e \<Rightarrow> False | Inr j \<Rightarrow> integer_to_column j = Inr s)"
proof -
  have pos: "0 < i" using assms(1) by (simp add: word_greater_zero_iff) (metis word_le_0_iff zero_neq_one)
  have a: "integer_to_column i = Inr (integer_to_column_loop i [])"
    using pos assms(2) by (auto simp: integer_to_column_def)
  have b: "column_to_integer (integer_to_column_loop i []) = Inr i"
    using pos assms(2) by (rule column_to_integer_letters)
  show ?thesis using a b by simp
qed

theorem column_letter_roundtrip_witness:
  "(1::uint32_t) \<le> 28 \<and> (28::uint32_t) \<le> MAX_COL
   \<and> integer_to_column 28 = Inr ''AB'' \<and> column_to_integer ''AB'' = Inr 28"
proof -
  have h1: "(1::uint32_t) \<le> 28" by simp
  have h2: "(28::uint32_t) \<le> MAX_COL" by (simp add: MAX_COL_def)
  have s: "integer_to_column 28 = Inr ''AB''"
    by (simp add: integer_to_column_def MAX_COL_def integer_to_column_loop.simps char_of_eq_iff)
  from column_letter_roundtrip[OF h1 h2] s have "column_to_integer ''AB'' = Inr 28" by auto
  with h1 h2 s show ?thesis by simp
qed

section \<open>Properties of the mixed references\<close>

lemma integer_to_column_loop_upper:
  "\<forall>c \<in> set (integer_to_column_loop w []). isupper_c c"
proof (induction "unat w" arbitrary: w rule: less_induct)
  case less
  show ?case
  proof (cases "w > 0")
    case True
    have lt: "unat ((w - 1) div 26) < unat w" using True by (rule integer_to_column_loop_decreases)
    show ?thesis
      unfolding integer_to_column_loop_snoc[OF True] using less[OF lt]
      by (simp add: col_digit_upper)
  next
    case False
    then show ?thesis by (simp add: integer_to_column_loop_unfold)
  qed
qed

lemma integer_to_column_loop_nonempty: "w > 0 \<Longrightarrow> integer_to_column_loop w [] \<noteq> []"
  by (simp add: integer_to_column_loop_snoc)

lemma digit_char_code: "d < 10 \<Longrightarrow> (of_char (char_of (48 + d :: nat)) :: nat) = 48 + d"
  by simp

lemma to_string_nat_digits: "\<forall>c \<in> set (to_string_nat n). isdigit_c c"
proof (induction n rule: to_string_nat.induct)
  case (1 n)
  show ?case
  proof (cases "n < 10")
    case True
    then show ?thesis by (subst to_string_nat.simps) (simp add: isdigit_c_def)
  next
    case False
    have "n mod 10 < 10" by simp
    then have "isdigit_c (char_of (48 + n mod 10))"
      unfolding isdigit_c_def by (simp only: digit_char_code) simp
    then show ?thesis using 1 False by (subst to_string_nat.simps) simp
  qed
qed

lemma to_string_nat_nonempty: "to_string_nat n \<noteq> []"
  by (subst to_string_nat.simps) simp

lemma digits_value_snoc:
  "digits_value (ds @ [c]) = 10 * digits_value ds + ((of_char c :: nat) - 48)"
  by (simp add: digits_value_def)

lemma digits_value_to_string_nat: "digits_value (to_string_nat n) = n"
proof (induction n rule: to_string_nat.induct)
  case (1 n)
  show ?case
  proof (cases "n < 10")
    case True
    then show ?thesis by (subst to_string_nat.simps) (simp add: digits_value_def)
  next
    case False
    have m: "n mod 10 < 10" by simp
    have "digits_value (to_string_nat n) = 10 * digits_value (to_string_nat (n div 10))
            + ((of_char (char_of (48 + n mod 10)) :: nat) - 48)"
      using False by (subst to_string_nat.simps) (simp add: digits_value_snoc)
    also have "\<dots> = 10 * (n div 10) + n mod 10"
      using 1 False by (simp only: digit_char_code[OF m]) simp
    finally show ?thesis by simp
  qed
qed

lemma isupper_isalpha: "isupper_c c \<Longrightarrow> isalpha_c c"
  by (simp add: isupper_c_def isalpha_c_def)

lemma isdigit_not_isalpha: "isdigit_c c \<Longrightarrow> \<not> isalpha_c c"
  by (auto simp: isdigit_c_def isalpha_c_def)

lemma isdigit_not_isspace: "isdigit_c c \<Longrightarrow> \<not> isspace_c c"
  by (auto simp: isdigit_c_def isspace_c_def)

lemma isdigit_not_sign: "isdigit_c c \<Longrightarrow> c \<noteq> CHR ''-'' \<and> c \<noteq> CHR ''+''"
  by (auto simp: isdigit_c_def)

lemma mixedref_scan_letters:
  "\<forall>c \<in> set ls. isalpha_c c \<Longrightarrow>
   mixedref_scan (ls @ ds) j fa False rs = mixedref_scan ds (j + length ls) (fa \<or> ls \<noteq> []) False rs"
  by (induction ls arbitrary: j fa) auto

lemma mixedref_scan_digits:
  "\<forall>c \<in> set ds. isdigit_c c \<Longrightarrow> mixedref_scan ds j True True rs = Inr (True, True, rs)"
  by (induction ds arbitrary: j) (auto simp: isdigit_not_isalpha)

lemma mixedref_scan_letters_digits:
  assumes "\<forall>c \<in> set ls. isalpha_c c" "ls \<noteq> []" "\<forall>c \<in> set ds. isdigit_c c" "ds \<noteq> []"
  shows "mixedref_scan (ls @ ds) 0 False False npos = Inr (True, True, length ls)"
proof -
  obtain d ds' where ds: "ds = d # ds'" using assms(4) by (cases ds) auto
  have "mixedref_scan (ls @ ds) 0 False False npos = mixedref_scan ds (length ls) True False npos"
    using mixedref_scan_letters[OF assms(1), of ds 0 False npos] assms(2) by simp
  also have "\<dots> = mixedref_scan ds' (length ls + 1) True True (length ls)"
    using assms(3) unfolding ds by (simp add: isdigit_not_isalpha)
  also have "\<dots> = Inr (True, True, length ls)"
    using assms(3) unfolding ds by (intro mixedref_scan_digits) simp
  finally show ?thesis .
qed

lemma stoll_digits:
  assumes "\<forall>c \<in> set ds. isdigit_c c" "ds \<noteq> []" "digits_value ds < 2 ^ 63"
  shows "stoll ds = stoll_ok (int (digits_value ds)) (length ds)"
proof -
  obtain d ds' where ds: "ds = d # ds'" using assms(2) by (cases ds) auto
  have d: "isdigit_c d" using assms(1) ds by simp
  have s1: "dropWhile isspace_c ds = ds" using d ds by (simp add: isdigit_not_isspace)
  have tw: "takeWhile isdigit_c ds = ds" using assms(1) by (simp add: takeWhile_eq_all_conv)
  have sg: "hd ds \<noteq> CHR ''-''" "hd ds \<noteq> CHR ''+''" using isdigit_not_sign[OF d] ds by simp_all
  have v: "int (digits_value ds) \<le> 2 ^ 63 - 1" using assms(3) by simp
  have v0: "\<not> int (digits_value ds) < - (2 ^ 63)" by simp
  show ?thesis
    unfolding stoll_def Let_def s1 using sg assms(2) v v0 by (simp add: tw)
qed

lemma mixedref_to_integerref_of_parts:
  assumes "0 < c" "c \<le> MAX_COL" "0 < r" "r \<le> MAX_ROW"
  shows "mixedref_to_integerref (integer_to_column_loop c [] @ to_string r) = Inr \<lparr>row = r, col = c\<rparr>"
proof -
  let ?ls = "integer_to_column_loop c []" and ?ds = "to_string r"
  have ls: "\<forall>x \<in> set ?ls. isalpha_c x" "?ls \<noteq> []"
    using integer_to_column_loop_upper[of c] integer_to_column_loop_nonempty[OF assms(1)]
    by (auto intro: isupper_isalpha)
  have ds: "\<forall>x \<in> set ?ds. isdigit_c x" "?ds \<noteq> []"
    by (simp_all add: to_string_def to_string_nat_digits to_string_nat_nonempty)
  have dv: "digits_value ?ds = unat r" by (simp add: to_string_def digits_value_to_string_nat)
  have "unat r < 2 ^ 32" using unsigned_less[of r] by simp
  then have small: "digits_value ?ds < 2 ^ 63" unfolding dv by simp
  have scan: "mixedref_scan (?ls @ ?ds) 0 False False npos = Inr (True, True, length ?ls)"
    using ls ds by (rule mixedref_scan_letters_digits)
  have colv: "column_to_integer ?ls = Inr c" using assms(1,2) by (rule column_to_integer_letters)
  have st: "stoll ?ds = stoll_ok (int (unat r)) (length ?ds)"
    using stoll_digits[OF ds small] dv by simp
  have "0 < uint r" using assms(3) by (simp add: word_less_def)
  then have r1: "\<not> int (unat r) < 1" by simp
  have r2: "\<not> int (unat r) > uint MAX_ROW" using assms(4) by (simp add: word_le_def not_less)
  have r3: "(word_of_int (int (unat r)) :: uint32_t) = r" by simp
  show ?thesis
    unfolding mixedref_to_integerref_def scan
    using colv st r1 r2 r3 by simp
qed

text \<open>
  C2.  For every reference \<open>r\<close> with \<open>1 \<le> row r \<le> 1048576\<close> and
  \<open>1 \<le> col r \<le> 16384\<close>, \<open>integerref_to_mixedref r\<close> returns a text, and
  \<open>mixedref_to_integerref\<close> of that text returns \<open>r\<close>.
\<close>

theorem mixedref_roundtrip:
  assumes "1 \<le> row r" "row r \<le> MAX_ROW" "1 \<le> col r" "col r \<le> MAX_COL"
  shows "\<exists>s. integerref_to_mixedref r = Inr s \<and> mixedref_to_integerref s = Inr r"
proof -
  have rp: "0 < row r" and cp: "0 < col r"
    using assms(1,3) by (simp_all add: word_le_nat_alt word_less_nat_alt)
  have nlt: "\<not> col r < 1" "\<not> row r < 1" using assms(1,3) by (simp_all only: not_less)
  have ngt: "\<not> col r > MAX_COL" "\<not> row r > MAX_ROW" using assms(2,4) by (simp_all add: not_less)
  have c0: "col r \<noteq> 0" using cp by auto
  have m: "integerref_to_mixedref r = Inr (integer_to_column_loop (col r) [] @ to_string (row r))"
    unfolding integerref_to_mixedref_def integer_to_column_def using nlt ngt c0 by simp
  have "mixedref_to_integerref (integer_to_column_loop (col r) [] @ to_string (row r))
          = Inr \<lparr>row = row r, col = col r\<rparr>"
    using cp assms(4) rp assms(2) by (rule mixedref_to_integerref_of_parts)
  then show ?thesis using m by simp
qed

theorem mixedref_roundtrip_witness:
  "integerref_to_mixedref \<lparr>row = 11, col = 34\<rparr> = Inr ''AH11''
   \<and> mixedref_to_integerref ''AH11'' = Inr \<lparr>row = 11, col = 34\<rparr>"
proof -
  have s: "integerref_to_mixedref \<lparr>row = 11, col = 34\<rparr> = Inr ''AH11''"
    by (simp add: integerref_to_mixedref_def integer_to_column_def MAX_COL_def MAX_ROW_def
        integer_to_column_loop.simps char_of_eq_iff to_string_def to_string_nat.simps)
  have "\<exists>s. integerref_to_mixedref \<lparr>row = 11, col = 34\<rparr> = Inr s
          \<and> mixedref_to_integerref s = Inr \<lparr>row = 11, col = 34\<rparr>"
    by (rule mixedref_roundtrip) (simp_all add: MAX_COL_def MAX_ROW_def)
  with s show ?thesis by auto
qed

section \<open>Properties of the ordered sets\<close>

lemma set_insert_fail:
  "\<not> snd (set_insert lt x xs) \<Longrightarrow> fst (set_insert lt x xs) = xs"
  by (induction xs) (auto split: if_splits)

lemma set_insert_set:
  "set (fst (set_insert lt x xs)) = (if snd (set_insert lt x xs) then insert x (set xs) else set xs)"
  by (induction xs) auto

lemma set_insert_subset: "set (fst (set_insert lt x xs)) \<subseteq> insert x (set xs)"
  by (auto simp: set_insert_set split: if_splits)

lemma set_insert_sorted:
  assumes "\<And>a b. lt a b = (key a < (key b :: 'k::linorder))" "sorted_wrt lt xs"
  shows "sorted_wrt lt (fst (set_insert lt x xs))"
  using assms(2)
proof (induction xs)
  case Nil
  then show ?case by simp
next
  case (Cons y ys)
  have sub: "set (fst (set_insert lt x ys)) \<subseteq> insert x (set ys)" by (rule set_insert_subset)
  show ?case
  proof (cases "lt x y")
    case True
    then have "\<forall>z \<in> set ys. lt x z" using Cons.prems by (auto simp: assms(1))
    then show ?thesis using True Cons.prems by simp
  next
    case False
    show ?thesis
    proof (cases "lt y x")
      case True
      have "\<forall>z \<in> set (fst (set_insert lt x ys)). lt y z"
        using sub True Cons.prems by auto
      then show ?thesis using False True Cons by simp
    next
      case F2: False
      then show ?thesis using False Cons.prems by simp
    qed
  qed
qed

lemma set_insert_new:
  assumes "\<And>a b. lt a b = (key a < (key b :: 'k::linorder))" "key x \<notin> key ` set xs"
  shows "snd (set_insert lt x xs)"
  using assms(2) by (induction xs) (auto simp: assms(1))

lemma set_insert_dup:
  assumes "\<And>a b. lt a b = (key a < (key b :: 'k::linorder))" "sorted_wrt lt xs"
          "key x \<in> key ` set xs"
  shows "\<not> snd (set_insert lt x xs)"
  using assms(2,3)
proof (induction xs)
  case Nil
  then show ?case by simp
next
  case (Cons y ys)
  show ?case
  proof (cases "key x = key y")
    case True
    then show ?thesis by (simp add: assms(1))
  next
    case False
    then have in_ys: "key x \<in> key ` set ys" using Cons.prems(2) by auto
    then obtain z where z: "z \<in> set ys" "key z = key x" by auto
    have "key y < key z" using Cons.prems(1) z(1) by (auto simp: assms(1))
    then have "\<not> lt x y" "lt y x" using z(2) by (auto simp: assms(1))
    then show ?thesis using Cons in_ys by simp
  qed
qed

lemma set_find_present:
  assumes "\<And>a b. lt a b = (key a < (key b :: 'k::linorder))" "sorted_wrt lt xs"
          "y \<in> set xs" "key y = key k"
  shows "set_find lt k xs = Some y"
  using assms(2,3)
proof (induction xs)
  case Nil
  then show ?case by simp
next
  case (Cons z zs)
  show ?case
  proof (cases "y = z")
    case True
    then show ?thesis using assms(4) by (simp add: assms(1))
  next
    case False
    then have y: "y \<in> set zs" using Cons.prems(2) by simp
    then have "key z < key y" using Cons.prems(1) by (auto simp: assms(1))
    then have "\<not> lt k z" "lt z k" using assms(4) by (auto simp: assms(1))
    then show ?thesis using Cons y by simp
  qed
qed

lemma set_find_absent:
  assumes "\<And>a b. lt a b = (key a < (key b :: 'k::linorder))" "key k \<notin> key ` set xs"
  shows "set_find lt k xs = None"
  using assms(2) by (induction xs) (auto simp: assms(1))

lemma sorted_wrt_key_distinct:
  assumes "\<And>a b. lt a b = (key a < (key b :: 'k::linorder))" "sorted_wrt lt xs"
  shows "distinct (map key xs)"
  using assms(2) by (induction xs) (auto simp: assms(1))

lemma ref_key_less:
  "ref_key a < ref_key b \<longleftrightarrow> row a < row b \<or> (row a = row b \<and> col a < col b)"
proof -
  have ca: "unat (col a) < 2 ^ 32" and cb: "unat (col b) < 2 ^ 32"
    using unsigned_less[of "col a"] unsigned_less[of "col b"] by simp_all
  have "unat (row a) * 2 ^ 32 + unat (col a) < unat (row b) * 2 ^ 32 + unat (col b)
        \<longleftrightarrow> unat (row a) < unat (row b) \<or> (unat (row a) = unat (row b) \<and> unat (col a) < unat (col b))"
  proof (cases "unat (row a)" "unat (row b)" rule: linorder_cases)
    case less
    then have "Suc (unat (row a)) \<le> unat (row b)" by simp
    then have "Suc (unat (row a)) * 2 ^ 32 \<le> unat (row b) * 2 ^ 32" by (rule mult_le_mono1)
    then show ?thesis using less ca by simp
  next
    case equal
    then show ?thesis by simp
  next
    case greater
    then have "Suc (unat (row b)) \<le> unat (row a)" by simp
    then have "Suc (unat (row b)) * 2 ^ 32 \<le> unat (row a) * 2 ^ 32" by (rule mult_le_mono1)
    then show ?thesis using greater cb by simp
  qed
  then show ?thesis by (simp add: ref_key_def word_less_nat_alt word_unat_eq_iff)
qed

lemma ref_key_inj: "ref_key a = ref_key b \<longleftrightarrow> a = b"
proof
  assume e: "ref_key a = ref_key b"
  have "\<not> ref_key a < ref_key b" "\<not> ref_key b < ref_key a" using e by simp_all
  then have "row a = row b \<and> col a = col b" unfolding ref_key_less by (metis linorder_neqE)
  then show "a = b" by simp
qed simp

lemma cell_sort_compare_key:
  "cell_sort_compare a b = (ref_key (integerref a) < ref_key (integerref b))"
  by (simp add: cell_sort_compare_def ref_key_less)

lemma column_widths_sort_compare_key: "column_widths_sort_compare a b = (fst a < fst b)"
  by (simp add: column_widths_sort_compare_def)

lemma row_heights_sort_compare_key: "row_heights_sort_compare a b = (fst a < fst b)"
  by (simp add: row_heights_sort_compare_def)

section \<open>Properties of the sheet operations\<close>

lemma std_find_le: "std_find xs v \<le> length xs"
  by (induction xs) auto

lemma std_find_end: "std_find xs v = length xs \<longleftrightarrow> v \<notin> set xs"
  using std_find_le[of _ v] by (induction xs) (auto simp: Suc_le_eq dest: le_neq_implies_less)

lemma std_find_append: "v \<in> set xs \<Longrightarrow> std_find (xs @ ys) v = std_find xs v"
  by (induction xs) auto

lemma std_find_new: "v \<notin> set xs \<Longrightarrow> std_find (xs @ [v]) v = length xs"
  by (induction xs) auto

lemma addStyle_catalog:
  "fst (addStyle s cs) = (if s \<in> set cs then cs else cs @ [s])"
  by (simp add: addStyle_def std_find_end)

lemma addStyle_again:
  "addStyle s (fst (addStyle s cs)) = (fst (addStyle s cs), snd (addStyle s cs))"
proof (cases "s \<in> set cs")
  case True
  then show ?thesis by (simp add: addStyle_def std_find_end)
next
  case False
  then have a: "addStyle s cs = (cs @ [s], length cs)" by (simp add: addStyle_def std_find_end)
  have "std_find (cs @ [s]) s = length cs" using False by (rule std_find_new)
  then have "addStyle s (cs @ [s]) = (cs @ [s], length cs)" by (simp add: addStyle_def)
  then show ?thesis using a by simp
qed

lemma store_cell_eq:
  "store_cell ref ty num str s (cs, sh) =
     (if snd (set_insert cell_sort_compare
               \<lparr>integerref = ref, type = ty, style_index = snd (addStyle s cs),
                num_val = num, str_fml_val = str\<rparr> (cells sh))
      then ((fst (addStyle s cs),
             sh\<lparr>cells := fst (set_insert cell_sort_compare
                      \<lparr>integerref = ref, type = ty, style_index = snd (addStyle s cs),
                       num_val = num, str_fml_val = str\<rparr> (cells sh)),
                used_columns := fst (set_insert (<) (col ref) (used_columns sh))\<rparr>), Inr ())
      else ((fst (addStyle s cs), sh), Inl (runtime_error DuplicateCell)))"
  by (auto simp: store_cell_def Let_def split_beta set_insert_fail)

lemma store_cell_new:
  assumes "ref \<notin> integerref ` set (cells sh)"
  shows "snd (store_cell ref ty num str s (cs, sh)) = Inr ()"
proof -
  let ?c = "\<lparr>integerref = ref, type = ty, style_index = snd (addStyle s cs),
             num_val = num, str_fml_val = str\<rparr>"
  have "ref_key (integerref ?c) \<notin> (\<lambda>c. ref_key (integerref c)) ` set (cells sh)"
    using assms by (auto simp: ref_key_inj)
  then have "snd (set_insert cell_sort_compare ?c (cells sh))"
    by (rule set_insert_new[OF cell_sort_compare_key])
  then show ?thesis by (simp add: store_cell_eq)
qed

lemma store_cell_dup:
  assumes "sorted_wrt cell_sort_compare (cells sh)" "ref \<in> integerref ` set (cells sh)"
  shows "store_cell ref ty num str s (cs, sh) = ((fst (addStyle s cs), sh), Inl (runtime_error DuplicateCell))"
proof -
  let ?c = "\<lparr>integerref = ref, type = ty, style_index = snd (addStyle s cs),
             num_val = num, str_fml_val = str\<rparr>"
  have "ref_key (integerref ?c) \<in> (\<lambda>c. ref_key (integerref c)) ` set (cells sh)"
    using assms(2) by auto
  then have "\<not> snd (set_insert cell_sort_compare ?c (cells sh))"
    by (rule set_insert_dup[OF cell_sort_compare_key assms(1)])
  then show ?thesis by (simp add: store_cell_eq)
qed

lemma store_cell_refs:
  "integerref ` set (cells (snd (fst (store_cell ref ty num str s (cs, sh)))))
     = (if snd (store_cell ref ty num str s (cs, sh)) = Inr ()
        then insert ref (integerref ` set (cells sh)) else integerref ` set (cells sh))"
  by (simp add: store_cell_eq set_insert_set)

lemma store_cell_inv:
  assumes "\<not> ref_out_of_bounds ref" "sheet_inv sh"
  shows "sheet_inv (snd (fst (store_cell ref ty num str s (cs, sh))))"
proof -
  let ?c = "\<lparr>integerref = ref, type = ty, style_index = snd (addStyle s cs),
             num_val = num, str_fml_val = str\<rparr>"
  have so: "sorted_wrt cell_sort_compare (fst (set_insert cell_sort_compare ?c (cells sh)))"
    using assms(2) by (intro set_insert_sorted[OF cell_sort_compare_key]) (simp add: sheet_inv_def)
  have "set (fst (set_insert cell_sort_compare ?c (cells sh))) \<subseteq> insert ?c (set (cells sh))"
    by (rule set_insert_subset)
  then have bd: "list_all (\<lambda>c. \<not> ref_out_of_bounds (integerref c))
                   (fst (set_insert cell_sort_compare ?c (cells sh)))"
    using assms unfolding sheet_inv_def list_all_iff by auto
  show ?thesis using so bd assms(2) by (simp add: store_cell_eq sheet_inv_def)
qed

lemma add_number_cell_inv: "sheet_inv sh \<Longrightarrow> sheet_inv (snd (fst (add_number_cell r v s (cs, sh))))"
  by (simp add: add_number_cell_def store_cell_inv)

lemma add_formula_cell_inv: "sheet_inv sh \<Longrightarrow> sheet_inv (snd (fst (add_formula_cell K r v s (cs, sh))))"
  by (simp add: add_formula_cell_def store_cell_inv)

lemma add_string_cell_inv: "sheet_inv sh \<Longrightarrow> sheet_inv (snd (fst (add_string_cell K r v s (cs, sh))))"
  by (simp add: add_string_cell_def store_cell_inv)

lemma add_empty_cell_inv: "sheet_inv sh \<Longrightarrow> sheet_inv (snd (fst (add_empty_cell r s (cs, sh))))"
  by (simp add: add_empty_cell_def store_cell_inv)

lemma add_empty_cells_inv:
  "sheet_inv (snd st) \<Longrightarrow> sheet_inv (snd (fst (add_empty_cells start refs s st)))"
proof (induction refs arbitrary: st)
  case Nil
  then show ?case by simp
next
  case (Cons r refs)
  obtain cs sh where st: "st = (cs, sh)" by (cases st)
  have i1: "sheet_inv (snd (fst (add_empty_cell r s st)))"
    using Cons.prems unfolding st by (simp add: add_empty_cell_inv)
  show ?case
  proof (cases "row r = row start \<and> col r = col start")
    case True
    then show ?thesis using Cons by simp
  next
    case False
    obtain st' res where a: "add_empty_cell r s st = (st', res)" by (cases "add_empty_cell r s st")
    have i2: "sheet_inv (snd st')" using i1 a by simp
    show ?thesis using False a i2 Cons.IH[of st'] by (cases res) auto
  qed
qed

lemma add_merged_cell_inv:
  assumes "\<And>st. sheet_inv (snd st) \<Longrightarrow> sheet_inv (snd (fst (add_first st)))" "sheet_inv (snd st)"
  shows "sheet_inv (snd (fst (add_merged_cell add_first a b s st)))"
proof (cases "ref_out_of_bounds a \<or> ref_out_of_bounds b")
  case True
  then show ?thesis using assms(2) by (auto simp: add_merged_cell_def)
next
  case False
  obtain st1 r1 where f: "add_first st = (st1, r1)" by (cases "add_first st")
  have i1: "sheet_inv (snd st1)" using assms(1)[OF assms(2)] f by simp
  obtain st2 r2 where e: "add_empty_cells a (merge_refs a b) s st1 = (st2, r2)"
    by (cases "add_empty_cells a (merge_refs a b) s st1")
  have i2: "sheet_inv (snd st2)" using add_empty_cells_inv[OF i1, of a "merge_refs a b" s] e by simp
  obtain cs2 sh2 where st2: "st2 = (cs2, sh2)" by (cases st2)
  let ?m = "fst (set_insert merged_cell_sort_compare \<lparr>start_ref = a, end_ref = b\<rparr> (merged_cells sh2))"
  have "set ?m \<subseteq> insert \<lparr>start_ref = a, end_ref = b\<rparr> (set (merged_cells sh2))"
    by (rule set_insert_subset)
  then have "list_all (\<lambda>m. \<not> ref_out_of_bounds (start_ref m) \<and> \<not> ref_out_of_bounds (end_ref m)) ?m"
    using i2 st2 False unfolding sheet_inv_def list_all_iff by auto
  then have i3: "sheet_inv (sh2\<lparr>merged_cells := ?m\<rparr>)" using i2 st2 by (simp add: sheet_inv_def)
  show ?thesis
    unfolding add_merged_cell_def using assms(2) f e i1 i2 i3 st2
    by (cases r1; cases r2) (simp_all)
qed

lemma with_mixedref_inv:
  assumes "\<And>r st. sheet_inv (snd st) \<Longrightarrow> sheet_inv (snd (fst (f r st)))" "sheet_inv (snd st)"
  shows "sheet_inv (snd (fst (with_mixedref m f st)))"
  using assms by (simp add: with_mixedref_def split: sum.splits)

lemma set_column_width_inv: "sheet_inv sh \<Longrightarrow> sheet_inv (fst (set_column_width c w sh))"
  by (simp add: set_column_width_def sheet_inv_def
      set_insert_sorted[OF column_widths_sort_compare_key])

lemma set_column_width_str_inv: "sheet_inv sh \<Longrightarrow> sheet_inv (fst (set_column_width_str c w sh))"
  by (simp add: set_column_width_str_def set_column_width_inv split: sum.splits)

lemma set_row_height_inv: "sheet_inv sh \<Longrightarrow> sheet_inv (fst (set_row_height K r h sh))"
  by (simp add: set_row_height_def sheet_inv_def
      set_insert_sorted[OF row_heights_sort_compare_key])

lemma single_adds_inv:
  "sheet_inv (snd st) \<Longrightarrow> sheet_inv (snd (fst (add_number_cell r v s st)))"
  "sheet_inv (snd st) \<Longrightarrow> sheet_inv (snd (fst (add_formula_cell K r f s st)))"
  "sheet_inv (snd st) \<Longrightarrow> sheet_inv (snd (fst (add_string_cell K r f s st)))"
  by (cases st; simp add: add_number_cell_inv add_formula_cell_inv add_string_cell_inv)+

lemma merged_adds_inv:
  "sheet_inv (snd st) \<Longrightarrow> sheet_inv (snd (fst (add_merged_number_cell a b v s st)))"
  "sheet_inv (snd st) \<Longrightarrow> sheet_inv (snd (fst (add_merged_formula_cell K a b f s st)))"
  "sheet_inv (snd st) \<Longrightarrow> sheet_inv (snd (fst (add_merged_string_cell K a b f s st)))"
  unfolding add_merged_number_cell_def add_merged_formula_cell_def add_merged_string_cell_def
  by (rule add_merged_cell_inv; simp add: single_adds_inv)+

lemma do_call_inv: "sheet_inv (snd st) \<Longrightarrow> sheet_inv (snd (fst (do_call K c st)))"
proof (cases st)
  case (Pair cs sh)
  assume i: "sheet_inv (snd st)"
  show ?thesis
    using i unfolding Pair
    by (cases c)
       (simp_all add: single_adds_inv merged_adds_inv with_mixedref_inv
          set_column_width_inv set_column_width_str_inv set_row_height_inv)
qed

lemma new_Sheet_inv: "sheet_inv (new_Sheet n f i r)"
  by (simp add: sheet_inv_def new_Sheet_def)

lemma do_calls_inv: "sheet_inv (snd st) \<Longrightarrow> sheet_inv (snd (do_calls K calls st))"
  by (induction calls arbitrary: st) (simp_all add: do_call_inv)

section \<open>Merged cells\<close>

lemma loop_range_1_2: "loop_range 1 2 = [1, 2]" "loop_range 1 1 = [1]"
  by (simp_all add: loop_range_def upt_rec)

lemma in_bounds_simps:
  "\<not> ref_out_of_bounds \<lparr>row = 1, col = 1\<rparr>" "\<not> ref_out_of_bounds \<lparr>row = 1, col = 2\<rparr>"
  "\<not> ref_out_of_bounds \<lparr>row = 2, col = 1\<rparr>" "\<not> ref_out_of_bounds \<lparr>row = 2, col = 2\<rparr>"
  by (simp_all add: ref_out_of_bounds_def MAX_COL_def MAX_ROW_def)

text \<open>
  C3.  On a fresh sheet, a merged string cell from A1 to B2 (value within the limits of
  a string cell) returns normally and leaves exactly four cells: the string at A1
  (row 1, column 1) and empty cells at B1, A2 and B2, all with the index that
  \<open>addStyle\<close> gives the style, and exactly one merge region, from A1 to B2.
\<close>

theorem merged_string_cell_A1_B2:
  assumes "string_within_limits K v"
  shows "add_merged_string_cell K \<lparr>row = 1, col = 1\<rparr> \<lparr>row = 2, col = 2\<rparr> v s
           (cs, new_Sheet n f i r) =
         ((fst (addStyle s cs),
           (new_Sheet n f i r)
             \<lparr>used_columns := [1, 2],
              cells :=
                [\<lparr>integerref = \<lparr>row = 1, col = 1\<rparr>, type = STRING,
                  style_index = snd (addStyle s cs), num_val = NaN, str_fml_val = v\<rparr>,
                 \<lparr>integerref = \<lparr>row = 1, col = 2\<rparr>, type = EMPTY,
                  style_index = snd (addStyle s cs), num_val = NaN, str_fml_val = []\<rparr>,
                 \<lparr>integerref = \<lparr>row = 2, col = 1\<rparr>, type = EMPTY,
                  style_index = snd (addStyle s cs), num_val = NaN, str_fml_val = []\<rparr>,
                 \<lparr>integerref = \<lparr>row = 2, col = 2\<rparr>, type = EMPTY,
                  style_index = snd (addStyle s cs), num_val = NaN, str_fml_val = []\<rparr>],
              merged_cells := [\<lparr>start_ref = \<lparr>row = 1, col = 1\<rparr>, end_ref = \<lparr>row = 2, col = 2\<rparr>\<rparr>]\<rparr>),
          Inr ())"
proof -
  have lim: "\<not> length v > MAX_STRING_LEN K" "\<not> count_list v CHR 0x0A > MAX_STRING_LINE_BREAKS K"
    using assms by (simp_all add: string_within_limits_def not_less)
  have refs: "merge_refs \<lparr>row = 1, col = 1\<rparr> \<lparr>row = 2, col = 2\<rparr>
      = [\<lparr>row = 1, col = 1\<rparr>, \<lparr>row = 1, col = 2\<rparr>, \<lparr>row = 2, col = 1\<rparr>, \<lparr>row = 2, col = 2\<rparr>]"
    by (simp add: merge_refs_def loop_range_1_2)
  show ?thesis
    unfolding add_merged_string_cell_def add_merged_cell_def refs
    using lim
    by (simp add: in_bounds_simps add_string_cell_def add_empty_cell_def store_cell_eq
        addStyle_again new_Sheet_def cell_sort_compare_def)
qed

theorem merged_string_cell_A1_B2_witness:
  "string_within_limits example_limits ''total''
   \<and> snd (add_merged_string_cell example_limits \<lparr>row = 1, col = 1\<rparr> \<lparr>row = 2, col = 2\<rparr> ''total''
            generic_string_style ([], new_Sheet ''Sheet1'' ''xl/worksheets/sheet1.xml'' 1 ''rId2'')) = Inr ()
   \<and> map type (cells (snd (fst (add_merged_string_cell example_limits \<lparr>row = 1, col = 1\<rparr>
            \<lparr>row = 2, col = 2\<rparr> ''total'' generic_string_style
            ([], new_Sheet ''Sheet1'' ''xl/worksheets/sheet1.xml'' 1 ''rId2'')))))
       = [STRING, EMPTY, EMPTY, EMPTY]"
proof -
  have h: "string_within_limits example_limits ''total''"
    by (simp add: string_within_limits_def example_limits_def)
  show ?thesis
    using h merged_string_cell_A1_B2[OF h, of generic_string_style "[]" "''Sheet1''"
        "''xl/worksheets/sheet1.xml''" 1 "''rId2''"]
    by simp
qed

theorem merged_add_same_row_counterexample:
  "\<not> (row \<lparr>row = 1, col = 2\<rparr> > row \<lparr>row = 1, col = 1\<rparr> \<and> col \<lparr>row = 1, col = 2\<rparr> > col \<lparr>row = 1, col = 1\<rparr>)
   \<and> \<not> ref_out_of_bounds \<lparr>row = 1, col = 1\<rparr> \<and> \<not> ref_out_of_bounds \<lparr>row = 1, col = 2\<rparr>
   \<and> add_merged_string_cell example_limits \<lparr>row = 1, col = 1\<rparr> \<lparr>row = 1, col = 2\<rparr> ''x''
         generic_string_style ([], new_Sheet ''Sheet1'' ''xl/worksheets/sheet1.xml'' 1 ''rId2'')
       = (([generic_string_style],
           (new_Sheet ''Sheet1'' ''xl/worksheets/sheet1.xml'' 1 ''rId2'')
             \<lparr>used_columns := [1, 2],
              cells :=
                [\<lparr>integerref = \<lparr>row = 1, col = 1\<rparr>, type = STRING, style_index = 0,
                  num_val = NaN, str_fml_val = ''x''\<rparr>,
                 \<lparr>integerref = \<lparr>row = 1, col = 2\<rparr>, type = EMPTY, style_index = 0,
                  num_val = NaN, str_fml_val = []\<rparr>],
              merged_cells := [\<lparr>start_ref = \<lparr>row = 1, col = 1\<rparr>, end_ref = \<lparr>row = 1, col = 2\<rparr>\<rparr>]\<rparr>),
          Inr ())"
proof -
  have refs: "merge_refs \<lparr>row = 1, col = 1\<rparr> \<lparr>row = 1, col = 2\<rparr>
      = [\<lparr>row = 1, col = 1\<rparr>, \<lparr>row = 1, col = 2\<rparr>]"
    by (simp add: merge_refs_def loop_range_1_2)
  have a: "addStyle generic_string_style [] = ([generic_string_style], 0)"
    by (simp add: addStyle_def)
  have b: "addStyle generic_string_style [generic_string_style] = ([generic_string_style], 0)"
    by (simp add: addStyle_def)
  show ?thesis
    unfolding add_merged_string_cell_def add_merged_cell_def refs
    by (simp add: in_bounds_simps add_string_cell_def add_empty_cell_def store_cell_eq
        a b new_Sheet_def cell_sort_compare_def example_limits_def)
qed

text \<open>
  C7 (amended).  For in-bounds \<open>start\<close> and \<open>end\<close>, each of the three merged adds
  throws the invalid-merge error, and leaves the catalog and the sheet as they were,
  whenever \<open>end\<close> is left of \<open>start\<close>, or above it, or equal to it.
\<close>

theorem merged_add_rejects_end_before_start:
  assumes "\<not> ref_out_of_bounds start" "\<not> ref_out_of_bounds end"
    and "col end < col start \<or> row end < row start \<or> (col start = col end \<and> row start = row end)"
  shows "add_merged_number_cell start end number s st = (st, Inl (invalid_argument EndNotAfterStart))
       \<and> add_merged_formula_cell K start end formula s st = (st, Inl (invalid_argument EndNotAfterStart))
       \<and> add_merged_string_cell K start end val s st = (st, Inl (invalid_argument EndNotAfterStart))"
  using assms
  by (simp add: add_merged_number_cell_def add_merged_formula_cell_def add_merged_string_cell_def
      add_merged_cell_def)

theorem merged_add_rejects_end_before_start_witness:
  "\<not> ref_out_of_bounds \<lparr>row = 2, col = 2\<rparr> \<and> \<not> ref_out_of_bounds \<lparr>row = 1, col = 2\<rparr>
   \<and> add_merged_string_cell example_limits \<lparr>row = 2, col = 2\<rparr> \<lparr>row = 1, col = 2\<rparr> ''x''
        generic_string_style ([], new_Sheet ''Sheet1'' ''xl/worksheets/sheet1.xml'' 1 ''rId2'')
      = (([], new_Sheet ''Sheet1'' ''xl/worksheets/sheet1.xml'' 1 ''rId2''),
         Inl (invalid_argument EndNotAfterStart))"
proof -
  have h1: "\<not> ref_out_of_bounds \<lparr>row = 2, col = 2\<rparr>" by (rule in_bounds_simps)
  have h2: "\<not> ref_out_of_bounds \<lparr>row = 1, col = 2\<rparr>" by (rule in_bounds_simps)
  have h3: "col \<lparr>row = 1, col = 2::uint32_t\<rparr> < col \<lparr>row = 2::uint32_t, col = 2\<rparr>
            \<or> row \<lparr>row = 1::uint32_t, col = 2::uint32_t\<rparr> < row \<lparr>row = 2, col = 2::uint32_t\<rparr>
            \<or> (col \<lparr>row = 2::uint32_t, col = 2::uint32_t\<rparr> = col \<lparr>row = 1::uint32_t, col = 2\<rparr>
                \<and> row \<lparr>row = 2::uint32_t, col = 2::uint32_t\<rparr> = row \<lparr>row = 1, col = 2::uint32_t\<rparr>)"
    by simp
  show ?thesis
    using h1 h2 merged_add_rejects_end_before_start[OF h1 h2 h3, of _ generic_string_style
        "([], new_Sheet ''Sheet1'' ''xl/worksheets/sheet1.xml'' 1 ''rId2'')" example_limits _ "''x''"]
    by simp
qed

section \<open>Duplicate cells\<close>

lemma store_cell_error:
  "store_cell ref ty num str s (cs, sh) = (st', Inl e) \<Longrightarrow>
     e = runtime_error DuplicateCell \<and> st' = (fst (addStyle s cs), sh)"
  by (simp add: store_cell_eq split: if_splits)

lemma column_to_integer_loop_error:
  "column_to_integer_loop cs acc = Inl e \<Longrightarrow> e = invalid_argument NonAlphaColumn"
  by (induction cs arbitrary: acc) (auto split: if_splits)

lemma column_to_integer_error: "column_to_integer s = Inl e \<Longrightarrow> \<exists>why. e = invalid_argument why"
  by (auto simp: column_to_integer_def split: if_splits sum.splits dest: column_to_integer_loop_error)

lemma mixedref_scan_error:
  "mixedref_scan cs j fa fd rs = Inl e \<Longrightarrow> e = invalid_argument InvalidCellRef"
  by (induction cs arbitrary: j fa fd rs) (auto split: if_splits)

lemma mixedref_to_integerref_error:
  "mixedref_to_integerref m = Inl e \<Longrightarrow> \<exists>why. e = invalid_argument why"
  by (auto simp: mixedref_to_integerref_def
      split: if_splits sum.splits prod.splits stoll_result.splits
      dest: mixedref_scan_error column_to_integer_error)

lemma mixedref_to_integerref_not_duplicate [simp]:
  "mixedref_to_integerref m \<noteq> Inl (runtime_error why)"
  using mixedref_to_integerref_error[of m "runtime_error why"] by auto

lemma single_add_duplicate:
  assumes "single_cell_add c" "do_call K c (cs, sh) = (st', Inl (runtime_error DuplicateCell))"
  shows "st' = (fst (addStyle (call_style c) cs), sh)"
  using assms
  by (cases c)
     (auto simp: add_number_cell_def add_formula_cell_def add_string_cell_def with_mixedref_def
        split: if_splits sum.splits dest: store_cell_error)

text \<open>
  C10.  When a call that adds one cell throws the duplicate-cell error, the sheet is as
  it was before the call (its cells, used columns and merges with it), and the catalog
  of the workbook is the one after \<open>addStyle\<close> of the call's style: as before when the
  style was in the catalog, and one entry longer when it was not.
\<close>

theorem duplicate_add_keeps_sheet_but_not_catalog:
  assumes "single_cell_add c" "do_call K c (cs, sh) = (st', Inl (runtime_error DuplicateCell))"
  shows "snd st' = sh
       \<and> cells (snd st') = cells sh \<and> used_columns (snd st') = used_columns sh
       \<and> merged_cells (snd st') = merged_cells sh
       \<and> fst st' = (if call_style c \<in> set cs then cs else cs @ [call_style c])"
  using single_add_duplicate[OF assms] by (simp add: addStyle_catalog)


theorem duplicate_add_keeps_sheet_but_not_catalog_witness:
  "single_cell_add (Add_number_cell \<lparr>row = 1, col = 1\<rparr> (Finite 2) generic_string_style)
   \<and> do_call example_limits (Add_number_cell \<lparr>row = 1, col = 1\<rparr> (Finite 2) generic_string_style)
        ([generic_style],
         (new_Sheet ''Sheet1'' ''xl/worksheets/sheet1.xml'' 1 ''rId2'')
           \<lparr>used_columns := [1],
            cells := [\<lparr>integerref = \<lparr>row = 1, col = 1\<rparr>, type = NUMBER, style_index = 0,
                       num_val = Finite 1, str_fml_val = []\<rparr>]\<rparr>)
      = (([generic_style, generic_string_style],
          (new_Sheet ''Sheet1'' ''xl/worksheets/sheet1.xml'' 1 ''rId2'')
           \<lparr>used_columns := [1],
            cells := [\<lparr>integerref = \<lparr>row = 1, col = 1\<rparr>, type = NUMBER, style_index = 0,
                       num_val = Finite 1, str_fml_val = []\<rparr>]\<rparr>),
         Inl (runtime_error DuplicateCell))"
proof -
  let ?c = "Add_number_cell \<lparr>row = 1, col = 1\<rparr> (Finite 2) generic_string_style"
  let ?sh = "(new_Sheet ''Sheet1'' ''xl/worksheets/sheet1.xml'' 1 ''rId2'')
           \<lparr>used_columns := [1],
            cells := [\<lparr>integerref = \<lparr>row = 1, col = 1\<rparr>, type = NUMBER, style_index = 0,
                       num_val = Finite 1, str_fml_val = []\<rparr>]\<rparr>"
  have h1: "single_cell_add ?c" by simp
  have ne: "generic_string_style \<noteq> generic_style"
    by (simp add: generic_string_style_def generic_style_def NumberFormat_TEXT_def NumberFormat_GENERAL_def)
  have a: "addStyle generic_string_style [generic_style] = ([generic_style, generic_string_style], 1)"
    using ne by (simp add: addStyle_def)
  obtain st' where h2: "do_call example_limits ?c ([generic_style], ?sh) = (st', Inl (runtime_error DuplicateCell))"
    by (simp add: add_number_cell_def in_bounds_simps store_cell_eq a new_Sheet_def cell_sort_compare_def)
  from duplicate_add_keeps_sheet_but_not_catalog[OF h1 h2] ne
  have "st' = ([generic_style, generic_string_style], ?sh)"
    by (cases st') (simp add: ne[symmetric])
  with h1 h2 show ?thesis by simp
qed

lemma single_add_at_store:
  assumes "single_add_at K r c" "\<not> ref_out_of_bounds r"
  shows "\<exists>ty num str. \<forall>cs sh. do_call K c (cs, sh) = store_cell r ty num str (call_style c) (cs, sh)"
  using assms
  by (cases c)
     (auto simp: add_number_cell_def add_formula_cell_def add_string_cell_def with_mixedref_def
        string_within_limits_def not_less)

text \<open>
  C5.  Take any state that a sequence of calls on a fresh sheet has produced, an
  in-bounds reference \<open>r\<close> that no cell of the sheet has, and two calls that each add
  one cell at \<open>r\<close> (number, formula or string, with a value inside the limits of its
  kind).  The first call returns normally and the second throws the duplicate-cell
  error.  In every such state no two cells have the same reference.
\<close>

theorem second_add_at_same_reference_is_duplicate:
  assumes "\<not> ref_out_of_bounds r" "single_add_at K r c1" "single_add_at K r c2"
    and "r \<notin> integerref ` set (cells (snd (do_calls K calls (cs0, new_Sheet n f i rl))))"
  shows "snd (do_call K c1 (do_calls K calls (cs0, new_Sheet n f i rl))) = Inr ()
       \<and> snd (do_call K c2 (fst (do_call K c1 (do_calls K calls (cs0, new_Sheet n f i rl)))))
           = Inl (runtime_error DuplicateCell)
       \<and> distinct (map integerref (cells (snd (do_calls K calls (cs0, new_Sheet n f i rl)))))"
proof -
  let ?st = "do_calls K calls (cs0, new_Sheet n f i rl)"
  obtain cs sh where st: "?st = (cs, sh)" by (cases ?st)
  have inv: "sheet_inv sh"
    using do_calls_inv[of "(cs0, new_Sheet n f i rl)" K calls] st by (simp add: new_Sheet_inv)
  obtain ty1 num1 str1 where c1: "\<And>cs sh. do_call K c1 (cs, sh) = store_cell r ty1 num1 str1 (call_style c1) (cs, sh)"
    using single_add_at_store[OF assms(2,1)] by blast
  obtain ty2 num2 str2 where c2: "\<And>cs sh. do_call K c2 (cs, sh) = store_cell r ty2 num2 str2 (call_style c2) (cs, sh)"
    using single_add_at_store[OF assms(3,1)] by blast
  have fresh: "r \<notin> integerref ` set (cells sh)" using assms(4) st by simp
  have first: "snd (do_call K c1 (cs, sh)) = Inr ()"
    unfolding c1 using fresh by (rule store_cell_new)
  obtain cs1 sh1 where st1: "fst (do_call K c1 (cs, sh)) = (cs1, sh1)"
    by (cases "fst (do_call K c1 (cs, sh))")
  have inv1: "sheet_inv sh1" using do_call_inv[of "(cs, sh)" K c1] inv st1 by simp
  have "integerref ` set (cells sh1) = insert r (integerref ` set (cells sh))"
    using store_cell_refs[of r ty1 num1 str1 "call_style c1" cs sh] first st1 unfolding c1 by simp
  then have there: "r \<in> integerref ` set (cells sh1)" by simp
  have second: "snd (do_call K c2 (cs1, sh1)) = Inl (runtime_error DuplicateCell)"
    unfolding c2 using store_cell_dup[OF _ there] inv1 by (simp add: sheet_inv_def)
  have "distinct (map (\<lambda>c. ref_key (integerref c)) (cells sh))"
    using inv by (intro sorted_wrt_key_distinct[OF cell_sort_compare_key]) (simp add: sheet_inv_def)
  then have "distinct (map ref_key (map integerref (cells sh)))" by (simp add: comp_def)
  then have dist: "distinct (map integerref (cells sh))" by (simp only: distinct_map[of ref_key])
  show ?thesis using first second dist st st1 by simp
qed

theorem second_add_at_same_reference_is_duplicate_witness:
  "\<not> ref_out_of_bounds \<lparr>row = 2, col = 1\<rparr>
   \<and> single_add_at example_limits \<lparr>row = 2, col = 1\<rparr>
        (Add_string_cell \<lparr>row = 2, col = 1\<rparr> ''name'' generic_string_style)
   \<and> single_add_at example_limits \<lparr>row = 2, col = 1\<rparr>
        (Add_number_cell_str ''A2'' (Finite 7) generic_style)
   \<and> snd (do_call example_limits (Add_string_cell \<lparr>row = 2, col = 1\<rparr> ''name'' generic_string_style)
        (do_calls example_limits [Add_number_cell \<lparr>row = 1, col = 1\<rparr> (Finite 1) generic_style]
           ([], new_Sheet ''Sheet1'' ''xl/worksheets/sheet1.xml'' 1 ''rId2''))) = Inr ()
   \<and> snd (do_call example_limits (Add_number_cell_str ''A2'' (Finite 7) generic_style)
        (fst (do_call example_limits (Add_string_cell \<lparr>row = 2, col = 1\<rparr> ''name'' generic_string_style)
           (do_calls example_limits [Add_number_cell \<lparr>row = 1, col = 1\<rparr> (Finite 1) generic_style]
              ([], new_Sheet ''Sheet1'' ''xl/worksheets/sheet1.xml'' 1 ''rId2'')))))
       = Inl (runtime_error DuplicateCell)"
proof -
  let ?r = "\<lparr>row = 2, col = 1\<rparr> :: integerref_t"
  have h1: "\<not> ref_out_of_bounds ?r" by (rule in_bounds_simps)
  have h2: "single_add_at example_limits ?r (Add_string_cell ?r ''name'' generic_string_style)"
    by (simp add: string_within_limits_def example_limits_def)
  have t: "integer_to_column_loop 1 [] @ to_string (2::uint32_t) = ''A2''"
    by (simp add: integer_to_column_loop.simps char_of_eq_iff to_string_def to_string_nat.simps)
  have m: "mixedref_to_integerref ''A2'' = Inr ?r"
    using mixedref_to_integerref_of_parts[of 1 2] unfolding t
    by (simp add: MAX_COL_def MAX_ROW_def)
  have h3: "single_add_at example_limits ?r (Add_number_cell_str ''A2'' (Finite 7) generic_style)"
    using m by simp
  have a: "addStyle generic_style [] = ([generic_style], 0)" by (simp add: addStyle_def)
  have h4: "?r \<notin> integerref ` set (cells (snd (do_calls example_limits
              [Add_number_cell \<lparr>row = 1, col = 1\<rparr> (Finite 1) generic_style]
              ([], new_Sheet ''Sheet1'' ''xl/worksheets/sheet1.xml'' 1 ''rId2''))))"
    by (simp add: add_number_cell_def in_bounds_simps store_cell_eq a new_Sheet_def)
  show ?thesis
    using h1 h2 h3 second_add_at_same_reference_is_duplicate[OF h1 h2 h3 h4]
    by simp
qed

section \<open>Column widths and row heights\<close>

text \<open>
  C6.  The claim is that the last width or height written for an index is the one
  recorded and rendered.  The code keeps the first: \<^verbatim>\<open>std::set::insert\<close> leaves an
  element with the same index in place, and the setters do not look at its result.
  On a sheet with a number at A1, the width of column 1 is set to 10 and then to 20, and
  the height of row 1 to 30 and then to 40.  Each second call returns normally and
  leaves the sheet as it was; the overrides recorded are 10 and 30, the pieces rendered
  hold 10 and 30, and so do the \<^verbatim>\<open>col\<close> and \<^verbatim>\<open>row\<close> tags of the text.
\<close>

theorem second_width_and_height_are_ignored:
  \<open>do_call example_limits (Set_column_width 1 (Finite 20))
      (do_calls example_limits
        [Add_number_cell \<lparr>row = 1, col = 1\<rparr> (Finite 7) generic_style,
         Set_column_width 1 (Finite 10), Set_row_height 1 (Finite 30)]
        ([], new_Sheet ''Sheet1'' ''xl/worksheets/sheet1.xml'' 1 ''rId2''))
     = (do_calls example_limits
        [Add_number_cell \<lparr>row = 1, col = 1\<rparr> (Finite 7) generic_style,
         Set_column_width 1 (Finite 10), Set_row_height 1 (Finite 30)]
        ([], new_Sheet ''Sheet1'' ''xl/worksheets/sheet1.xml'' 1 ''rId2''), Inr ())
   \<and> do_call example_limits (Set_row_height 1 (Finite 40))
      (do_calls example_limits
        [Add_number_cell \<lparr>row = 1, col = 1\<rparr> (Finite 7) generic_style,
         Set_column_width 1 (Finite 10), Set_row_height 1 (Finite 30)]
        ([], new_Sheet ''Sheet1'' ''xl/worksheets/sheet1.xml'' 1 ''rId2''))
     = (do_calls example_limits
        [Add_number_cell \<lparr>row = 1, col = 1\<rparr> (Finite 7) generic_style,
         Set_column_width 1 (Finite 10), Set_row_height 1 (Finite 30)]
        ([], new_Sheet ''Sheet1'' ''xl/worksheets/sheet1.xml'' 1 ''rId2''), Inr ())
   \<and> column_widths (snd (do_calls example_limits
        [Add_number_cell \<lparr>row = 1, col = 1\<rparr> (Finite 7) generic_style,
         Set_column_width 1 (Finite 10), Set_row_height 1 (Finite 30),
         Set_column_width 1 (Finite 20), Set_row_height 1 (Finite 40)]
        ([], new_Sheet ''Sheet1'' ''xl/worksheets/sheet1.xml'' 1 ''rId2''))) = [(1, Finite 10)]
   \<and> row_heights (snd (do_calls example_limits
        [Add_number_cell \<lparr>row = 1, col = 1\<rparr> (Finite 7) generic_style,
         Set_column_width 1 (Finite 10), Set_row_height 1 (Finite 30),
         Set_column_width 1 (Finite 20), Set_row_height 1 (Finite 40)]
        ([], new_Sheet ''Sheet1'' ''xl/worksheets/sheet1.xml'' 1 ''rId2''))) = [(1, Finite 30)]
   \<and> generate_pieces (snd (do_calls example_limits
        [Add_number_cell \<lparr>row = 1, col = 1\<rparr> (Finite 7) generic_style,
         Set_column_width 1 (Finite 10), Set_row_height 1 (Finite 30),
         Set_column_width 1 (Finite 20), Set_row_height 1 (Finite 40)]
        ([], new_Sheet ''Sheet1'' ''xl/worksheets/sheet1.xml'' 1 ''rId2'')))
     = [Prolog, Cols_open, Col_custom 1 (Finite 10), Cols_close, SheetData_open,
        Row_open 1 (Some (Finite 30)),
        Cell \<lparr>integerref = \<lparr>row = 1, col = 1\<rparr>, type = NUMBER, style_index = 0,
              num_val = Finite 7, str_fml_val = []\<rparr>,
        Row_close, SheetData_close, Worksheet_close]
   \<and> filter (\<lambda>t. tag_name t = ''col'' \<or> tag_name t = ''row'')
        (tags (projr (Sheet_generate_file example_double_to_string (snd (do_calls example_limits
        [Add_number_cell \<lparr>row = 1, col = 1\<rparr> (Finite 7) generic_style,
         Set_column_width 1 (Finite 10), Set_row_height 1 (Finite 30),
         Set_column_width 1 (Finite 20), Set_row_height 1 (Finite 40)]
        ([], new_Sheet ''Sheet1'' ''xl/worksheets/sheet1.xml'' 1 ''rId2''))))))
     = [''col min="1" max="1" width="10.000000" customWidth="1"/>'',
        ''row r="1" ht="30.000000" customHeight="1">'']\<close>
proof -
  let ?s0 = "([] :: cell_style_t list, new_Sheet ''Sheet1'' ''xl/worksheets/sheet1.xml'' 1 ''rId2'')"
  let ?c = "\<lparr>integerref = \<lparr>row = 1, col = 1\<rparr>, type = NUMBER, style_index = 0,
              num_val = Finite 7, str_fml_val = []\<rparr>"
  let ?sh = "(new_Sheet ''Sheet1'' ''xl/worksheets/sheet1.xml'' 1 ''rId2'')
      \<lparr>cells := [?c], used_columns := [1], column_widths := [(1, Finite 10)],
       row_heights := [(1, Finite 30)]\<rparr>"
  have a: "addStyle generic_style [] = ([generic_style], 0)" by (simp add: addStyle_def)
  have s1: "do_calls example_limits
        [Add_number_cell \<lparr>row = 1, col = 1\<rparr> (Finite 7) generic_style,
         Set_column_width 1 (Finite 10), Set_row_height 1 (Finite 30)] ?s0
      = ([generic_style], ?sh)"
    by (simp add: add_number_cell_def in_bounds_simps store_cell_eq a new_Sheet_def
        set_column_width_def set_row_height_def MIN_COL_WIDTH_def MAX_COL_WIDTH_def
        MAX_COL_def MAX_ROW_def example_limits_def)
  have c2: "do_call example_limits (Set_column_width 1 (Finite 20)) ([generic_style], ?sh)
      = (([generic_style], ?sh), Inr ())"
    by (simp add: set_column_width_def MIN_COL_WIDTH_def MAX_COL_WIDTH_def MAX_COL_def
        column_widths_sort_compare_def new_Sheet_def)
  have r2: "do_call example_limits (Set_row_height 1 (Finite 40)) ([generic_style], ?sh)
      = (([generic_style], ?sh), Inr ())"
    by (simp add: set_row_height_def MAX_ROW_def example_limits_def
        row_heights_sort_compare_def new_Sheet_def)
  have s2: "do_calls example_limits
        [Add_number_cell \<lparr>row = 1, col = 1\<rparr> (Finite 7) generic_style,
         Set_column_width 1 (Finite 10), Set_row_height 1 (Finite 30),
         Set_column_width 1 (Finite 20), Set_row_height 1 (Finite 40)] ?s0
      = ([generic_style], ?sh)"
    by (simp add: add_number_cell_def in_bounds_simps store_cell_eq a new_Sheet_def
        set_column_width_def set_row_height_def MIN_COL_WIDTH_def MAX_COL_WIDTH_def
        MAX_COL_def MAX_ROW_def example_limits_def column_widths_sort_compare_def
        row_heights_sort_compare_def)
  have g: "generate_pieces ?sh
     = [Prolog, Cols_open, Col_custom 1 (Finite 10), Cols_close, SheetData_open,
        Row_open 1 (Some (Finite 30)), Cell ?c, Row_close, SheetData_close, Worksheet_close]"
    by (simp add: generate_pieces_def col_piece_def new_Sheet_def column_widths_sort_compare_def
        row_heights_sort_compare_def)
  have m: "integerref_to_mixedref \<lparr>row = 1, col = 1\<rparr> = Inr ''A1''"
    by (simp add: integerref_to_mixedref_def integer_to_column_def MAX_COL_def MAX_ROW_def
        integer_to_column_loop.simps char_of_eq_iff to_string_def to_string_nat.simps)
  have t: "to_string (1::uint32_t) = ''1''" "to_string_nat 0 = ''0''"
    "to_string_nat 7 = ''7''" "to_string_nat 10 = ''10''" "to_string_nat 30 = ''30''"
    by (simp_all add: to_string_def to_string_nat.simps char_of_eq_iff)
  have x: \<open>filter (\<lambda>t. tag_name t = ''col'' \<or> tag_name t = ''row'')
        (tags (projr (Sheet_generate_file example_double_to_string ?sh)))
     = [''col min="1" max="1" width="10.000000" customWidth="1"/>'',
        ''row r="1" ht="30.000000" customHeight="1">'']\<close>
    unfolding Sheet_generate_file_def g
    by (simp add: piece_text_def cell_text_def m t example_double_to_string_def tag_name_def)
  show ?thesis unfolding s1 s2 using c2 r2 g x by simp
qed

section \<open>Properties of the rendering\<close>

lemma rows_well_formed_cols:
  "rows_well_formed (map (col_piece w) ucs @ rest) lr False lc = rows_well_formed rest lr False lc"
  by (induction ucs) (auto simp: col_piece_def split: option.splits)

lemma rows_well_formed_merges:
  "rows_well_formed (map MergeCell ms @ rest) lr False lc = rows_well_formed rest lr False lc"
  by (induction ms) auto

lemma opened_rows_append: "opened_rows (ps @ qs) = opened_rows ps @ opened_rows qs"
  by (induction ps rule: opened_rows.induct) auto

lemma rendered_cells_append: "rendered_cells (ps @ qs) = rendered_cells ps @ rendered_cells qs"
  by (induction ps rule: rendered_cells.induct) auto

lemma opened_rows_cols: "opened_rows (map (col_piece w) ucs) = []"
  by (induction ucs) (auto simp: col_piece_def split: option.splits)

lemma rendered_cells_cols: "rendered_cells (map (col_piece w) ucs) = []"
  by (induction ucs) (auto simp: col_piece_def split: option.splits)

lemma opened_rows_merges: "opened_rows (map MergeCell ms) = []"
  by (induction ms) auto

lemma rendered_cells_merges: "rendered_cells (map MergeCell ms) = []"
  by (induction ms) auto

lemma rendered_cells_row_pieces: "rendered_cells (row_pieces h cs tr) = cs"
  by (induction cs arbitrary: tr) (auto simp: rendered_cells_append)

lemma rows_well_formed_row_pieces:
  assumes "sorted_wrt cell_sort_compare cs"
    and "\<forall>c \<in> set cs. 0 < row (integerref c) \<and> 0 < col (integerref c)"
    and "\<forall>c \<in> set cs. tr < row (integerref c) \<or> (row (integerref c) = tr \<and> lc < col (integerref c))"
  shows "rows_well_formed (row_pieces h cs tr @ rest) tr (0 < tr) lc
         = (if cs = [] then rows_well_formed rest tr (0 < tr) lc
            else rows_well_formed rest (row (integerref (last cs))) True (col (integerref (last cs))))"
  using assms
proof (induction cs arbitrary: tr lc)
  case Nil
  then show ?case by simp
next
  case (Cons c cs)
  have pos: "0 < row (integerref c)" "0 < col (integerref c)" using Cons.prems(2) by simp_all
  have so: "sorted_wrt cell_sort_compare cs" using Cons.prems(1) by simp
  have ps: "\<forall>c \<in> set cs. 0 < row (integerref c) \<and> 0 < col (integerref c)"
    using Cons.prems(2) by simp
  have nx: "\<forall>c' \<in> set cs. row (integerref c) < row (integerref c')
             \<or> (row (integerref c') = row (integerref c) \<and> col (integerref c) < col (integerref c'))"
    using Cons.prems(1) by (auto simp: cell_sort_compare_def)
  note ih = Cons.IH[OF so ps nx]
  show ?case
  proof (cases "tr < row (integerref c)")
    case True
    then show ?thesis using pos ih by (cases "0 < tr") simp_all
  next
    case False
    then have eq: "row (integerref c) = tr" "lc < col (integerref c)"
      using Cons.prems(3) by auto
    then have tp: "0 < tr" using pos by simp
    show ?thesis using False eq tp ih by simp
  qed
qed

lemma opened_rows_row_pieces:
  assumes "sorted_wrt cell_sort_compare cs" "\<forall>c \<in> set cs. tr \<le> row (integerref c)"
  shows "set (opened_rows (row_pieces h cs tr)) = (\<lambda>c. row (integerref c)) ` set cs - {tr}"
  using assms
proof (induction cs arbitrary: tr)
  case Nil
  then show ?case by simp
next
  case (Cons c cs)
  have so: "sorted_wrt cell_sort_compare cs" using Cons.prems(1) by simp
  have ge: "\<forall>c' \<in> set cs. row (integerref c) \<le> row (integerref c')"
    using Cons.prems(1) by (auto simp: cell_sort_compare_def)
  show ?case
  proof (cases "tr < row (integerref c)")
    case True
    have "tr \<notin> (\<lambda>c. row (integerref c)) ` set cs" using ge True by auto
    then show ?thesis
      using True Cons.IH[OF so ge] by (auto simp: opened_rows_append)
  next
    case False
    then have eq: "row (integerref c) = tr" using Cons.prems(2) by auto
    have "\<forall>c' \<in> set cs. tr \<le> row (integerref c')" using ge eq by simp
    then show ?thesis using False eq Cons.IH[OF so] by auto
  qed
qed

lemma rows_well_formed_sorted:
  "rows_well_formed ps lr opn lc \<Longrightarrow>
     sorted_wrt (<) (opened_rows ps) \<and> (\<forall>r \<in> set (opened_rows ps). lr < r)"
  by (induction ps lr opn lc rule: rows_well_formed.induct) auto

lemma generate_pieces_well_formed:
  assumes "sheet_inv sh"
  shows "rows_well_formed (generate_pieces sh) 0 False 0"
    and "set (opened_rows (generate_pieces sh)) = (\<lambda>c. row (integerref c)) ` set (cells sh)"
    and "rendered_cells (generate_pieces sh) = cells sh"
proof -
  have so: "sorted_wrt cell_sort_compare (cells sh)" using assms by (simp add: sheet_inv_def)
  have "\<forall>c \<in> set (cells sh). \<not> ref_out_of_bounds (integerref c)"
    using assms by (simp add: sheet_inv_def list_all_iff)
  then have ps: "\<forall>c \<in> set (cells sh). 0 < row (integerref c) \<and> 0 < col (integerref c)"
    by (auto simp: ref_out_of_bounds_def word_less_nat_alt)
  then have p0: "\<forall>c \<in> set (cells sh). 0 < row (integerref c)
                   \<or> (row (integerref c) = 0 \<and> 0 < col (integerref c))" by simp
  have rp: "rows_well_formed (row_pieces (row_heights sh) (cells sh) 0 @ rest) 0 False 0
            = (if cells sh = [] then rows_well_formed rest 0 False 0
               else rows_well_formed rest (row (integerref (last (cells sh)))) True
                      (col (integerref (last (cells sh)))))" for rest
    using rows_well_formed_row_pieces[OF so ps p0, of "row_heights sh" rest] by simp
  show "rows_well_formed (generate_pieces sh) 0 False 0"
    unfolding generate_pieces_def
    by (simp add: rows_well_formed_cols rp rows_well_formed_merges)
  have "0 \<notin> (\<lambda>c. row (integerref c)) ` set (cells sh)" using ps by auto
  then have "set (opened_rows (row_pieces (row_heights sh) (cells sh) 0))
             = (\<lambda>c. row (integerref c)) ` set (cells sh)"
    using opened_rows_row_pieces[OF so, of 0 "row_heights sh"] by simp
  then show "set (opened_rows (generate_pieces sh)) = (\<lambda>c. row (integerref c)) ` set (cells sh)"
    unfolding generate_pieces_def
    by (simp add: opened_rows_append opened_rows_cols opened_rows_merges)
  show "rendered_cells (generate_pieces sh) = cells sh"
    unfolding generate_pieces_def
    by (simp add: rendered_cells_append rendered_cells_cols rendered_cells_merges
        rendered_cells_row_pieces)
qed

lemma integerref_to_mixedref_ok:
  "\<not> ref_out_of_bounds r \<Longrightarrow> \<exists>s. integerref_to_mixedref r = Inr s"
  by (auto simp: integerref_to_mixedref_def ref_out_of_bounds_def integer_to_column_def)

lemma append_texts_ok:
  "\<forall>t \<in> set ts. \<exists>s. t = Inr s \<Longrightarrow> \<exists>file. append_texts ts = Inr file"
proof (induction ts)
  case Nil
  then show ?case by simp
next
  case (Cons t ts)
  then obtain s fl where "t = Inr s" "append_texts ts = Inr fl" by auto
  then show ?case by simp
qed

lemma Cell_in_pieces: "Cell c \<in> set ps \<Longrightarrow> c \<in> set (rendered_cells ps)"
  by (induction ps rule: rendered_cells.induct) auto

lemma MergeCell_not_in_row_pieces: "MergeCell m \<notin> set (row_pieces h cs tr)"
  by (induction cs arbitrary: tr) auto

lemma MergeCell_in_pieces: "MergeCell m \<in> set (generate_pieces sh) \<Longrightarrow> m \<in> set (merged_cells sh)"
  by (auto simp: generate_pieces_def col_piece_def MergeCell_not_in_row_pieces
      split: if_splits option.splits)

lemma piece_text_ok:
  assumes "sheet_inv sh" "p \<in> set (generate_pieces sh)"
  shows "\<exists>s. piece_text dts p = Inr s"
proof -
  have cb: "\<forall>c \<in> set (cells sh). \<not> ref_out_of_bounds (integerref c)"
    and mb: "\<forall>m \<in> set (merged_cells sh). \<not> ref_out_of_bounds (start_ref m) \<and> \<not> ref_out_of_bounds (end_ref m)"
    using assms(1) by (simp_all add: sheet_inv_def list_all_iff)
  show ?thesis
  proof (cases p)
    case (Cell c)
    then have "c \<in> set (cells sh)"
      using assms Cell_in_pieces[of c "generate_pieces sh"] generate_pieces_well_formed(3)[OF assms(1)]
      by simp
    then obtain s where "integerref_to_mixedref (integerref c) = Inr s"
      using cb integerref_to_mixedref_ok by blast
    then show ?thesis using Cell by (simp add: piece_text_def cell_text_def)
  next
    case (MergeCell m)
    then have "m \<in> set (merged_cells sh)" using assms(2) MergeCell_in_pieces by simp
    then obtain s e where "integerref_to_mixedref (start_ref m) = Inr s"
      "integerref_to_mixedref (end_ref m) = Inr e"
      using mb integerref_to_mixedref_ok by blast
    then show ?thesis using MergeCell by (simp add: piece_text_def)
  next
    case (Row_open r h)
    then show ?thesis by (cases h) (simp_all add: piece_text_def)
  qed (simp_all add: piece_text_def)
qed

lemma Sheet_generate_file_ok:
  assumes "sheet_inv sh"
  shows "\<exists>fl. Sheet_generate_file dts sh = Inr fl"
  unfolding Sheet_generate_file_def
  by (rule append_texts_ok) (auto dest: piece_text_ok[OF assms])

section \<open>Reading the rendered text back\<close>

lemma takeWhile_no_lt:
  "CHR ''<'' \<notin> set a \<Longrightarrow>
     takeWhile (\<lambda>x. x \<noteq> CHR ''<'') (a @ b) = a @ takeWhile (\<lambda>x. x \<noteq> CHR ''<'') b"
  by (induction a) auto

lemma tags_no_lt: "CHR ''<'' \<notin> set a \<Longrightarrow> tags (a @ b) = tags b"
  by (induction a) auto

lemma takeWhile_before_lt:
  "b = [] \<or> hd b = CHR ''<'' \<Longrightarrow>
     takeWhile (\<lambda>x. x \<noteq> CHR ''<'') (a @ b) = takeWhile (\<lambda>x. x \<noteq> CHR ''<'') a"
  by (induction a) (auto simp: neq_Nil_conv takeWhile_eq_Nil_iff)

lemma tags_append:
  "b = [] \<or> hd b = CHR ''<'' \<Longrightarrow> tags (a @ b) = tags a @ tags b"
  by (induction a) (auto simp: takeWhile_before_lt)

lemma map_filter_append:
  "List.map_filter f (xs @ ys) = List.map_filter f xs @ List.map_filter f ys"
  by (simp add: List.map_filter_def)

lemma elements_append:
  "b = [] \<or> hd b = CHR ''<'' \<Longrightarrow> elements (a @ b) = elements a @ elements b"
  by (simp add: elements_def tags_append map_filter_append)

lemma attribute_value_quoted:
  "CHR 0x22 \<notin> set a \<Longrightarrow> attribute_value (a @ CHR 0x22 # b) = a"
  by (induction a) (auto simp: attribute_value_def)

lemma decimal_value_to_string: "decimal_value (to_string r) = Some (unat r)"
  by (simp add: decimal_value_def to_string_def to_string_nat_nonempty list_all_iff
      to_string_nat_digits digits_value_to_string_nat)

lemma digit_not_markup: "isdigit_c c \<Longrightarrow> c \<noteq> CHR ''<'' \<and> c \<noteq> CHR 0x22"
  by (auto simp: isdigit_c_def)

lemma upper_not_markup: "isupper_c c \<Longrightarrow> c \<noteq> CHR ''<'' \<and> c \<noteq> CHR 0x22"
  by (auto simp: isupper_c_def)

lemma to_string_nat_no_markup:
  "CHR ''<'' \<notin> set (to_string_nat n)" "CHR 0x22 \<notin> set (to_string_nat n)"
  using to_string_nat_digits[of n] digit_not_markup by blast+

lemma to_string_no_markup:
  "CHR ''<'' \<notin> set (to_string r)" "CHR 0x22 \<notin> set (to_string r)"
  by (simp_all add: to_string_def to_string_nat_no_markup)

lemma mixedref_text:
  assumes "\<not> ref_out_of_bounds r"
  shows "\<exists>m. integerref_to_mixedref r = Inr m \<and> mixedref_to_integerref m = Inr r
           \<and> CHR ''<'' \<notin> set m \<and> CHR 0x22 \<notin> set m"
proof -
  have b: "\<not> col r < 1" "\<not> col r > MAX_COL" "\<not> row r < 1" "\<not> row r > MAX_ROW"
    using assms by (simp_all add: ref_out_of_bounds_def)
  have cp: "0 < col r" and rp: "0 < row r"
    using b(1,3) by (simp_all add: word_less_nat_alt)
  have cm: "col r \<le> MAX_COL" and rm: "row r \<le> MAX_ROW" using b(2,4) by (simp_all add: not_less)
  have c0: "col r \<noteq> 0" using cp by auto
  let ?m = "integer_to_column_loop (col r) [] @ to_string (row r)"
  have m: "integerref_to_mixedref r = Inr ?m"
    unfolding integerref_to_mixedref_def integer_to_column_def using b c0 by simp
  have "mixedref_to_integerref ?m = Inr \<lparr>row = row r, col = col r\<rparr>"
    using cp cm rp rm by (rule mixedref_to_integerref_of_parts)
  then have rt: "mixedref_to_integerref ?m = Inr r" by simp
  have "CHR ''<'' \<notin> set (integer_to_column_loop (col r) [])"
    "CHR 0x22 \<notin> set (integer_to_column_loop (col r) [])"
    using integer_to_column_loop_upper[of "col r"] upper_not_markup by blast+
  then have "CHR ''<'' \<notin> set ?m" "CHR 0x22 \<notin> set ?m"
    by (simp_all add: to_string_no_markup)
  then show ?thesis using m rt by blast
qed

lemma mixedref_no_markup:
  assumes "integerref_to_mixedref r = Inr m"
  shows "CHR ''<'' \<notin> set m"
proof -
  have "\<not> ref_out_of_bounds r"
    using assms by (auto simp: integerref_to_mixedref_def ref_out_of_bounds_def split: if_splits)
  then show ?thesis using mixedref_text[of r] assms by auto
qed

lemma piece_text_starts:
  "piece_text dts p = Inr s \<Longrightarrow> s \<noteq> [] \<and> hd s = CHR ''<''"
  by (cases p)
     (auto simp: piece_text_def cell_text_def split: option.splits sum.splits CellType.splits)

lemma append_texts_starts:
  "append_texts (map (piece_text dts) ps) = Inr fl \<Longrightarrow> fl = [] \<or> hd fl = CHR ''<''"
proof (induction ps arbitrary: fl)
  case Nil
  then show ?case by simp
next
  case (Cons p ps)
  then obtain s rest where s: "piece_text dts p = Inr s"
    and r: "append_texts (map (piece_text dts) ps) = Inr rest" and fl: "fl = s @ rest"
    by (cases "piece_text dts p"; cases "append_texts (map (piece_text dts) ps)") auto
  show ?case using piece_text_starts[OF s] fl by auto
qed

lemmas text_simps =
  elements_def tag_element_def tag_name_def List.map_filter_simps
  takeWhile_no_lt tags_no_lt attribute_value_quoted decimal_value_to_string
  to_string_no_markup to_string_nat_no_markup

lemma cell_text_elements:
  assumes clean: "\<forall>d. CHR ''<'' \<notin> set (dts d)"
    and ib: "\<not> ref_out_of_bounds (integerref c)"
    and val: "CHR ''<'' \<notin> set (str_fml_val c)"
    and tx: "cell_text dts c = Inr s"
  shows "elements s = [Cell_start (integerref c)]"
proof -
  obtain m where m: "integerref_to_mixedref (integerref c) = Inr m"
    "mixedref_to_integerref m = Inr (integerref c)"
    "CHR ''<'' \<notin> set m" "CHR 0x22 \<notin> set m"
    using mixedref_text[OF ib] by blast
  have d: "CHR ''<'' \<notin> set (dts (num_val c))" using clean by simp
  show ?thesis
  proof (cases "type c")
    case NUMBER
    then show ?thesis using tx[symmetric] m d val by (simp add: cell_text_def text_simps)
  next
    case FORMULA
    then show ?thesis using tx[symmetric] m d val by (simp add: cell_text_def text_simps)
  next
    case STRING
    then show ?thesis using tx[symmetric] m d val by (simp add: cell_text_def text_simps)
  next
    case EMPTY
    then show ?thesis using tx[symmetric] m d val by (simp add: cell_text_def text_simps)
  qed
qed

lemma piece_text_elements:
  assumes clean: "\<forall>d. CHR ''<'' \<notin> set (dts d)"
    and cell: "\<And>c. p = Cell c \<Longrightarrow>
                 \<not> ref_out_of_bounds (integerref c) \<and> CHR ''<'' \<notin> set (str_fml_val c)"
    and tx: "piece_text dts p = Inr s"
  shows "elements s = piece_elements p"
proof (cases p)
  case (Cell c)
  then show ?thesis using cell_text_elements[OF clean, of c s] cell tx by (simp add: piece_text_def)
next
  case (Row_open r h)
  have d: "\<And>x. CHR ''<'' \<notin> set (dts x)" using clean by simp
  show ?thesis using Row_open tx[symmetric] d by (cases h) (simp_all add: piece_text_def text_simps)
next
  case (Col_custom c w)
  have d: "\<And>x. CHR ''<'' \<notin> set (dts x)" using clean by simp
  show ?thesis using Col_custom tx[symmetric] d by (simp add: piece_text_def text_simps)
next
  case (Col_bestfit c)
  then show ?thesis using tx[symmetric] by (simp add: piece_text_def text_simps)
next
  case (MergeCell m)
  then obtain a b where a: "integerref_to_mixedref (start_ref m) = Inr a"
    and b: "integerref_to_mixedref (end_ref m) = Inr b"
    using tx by (auto simp: piece_text_def split: sum.splits)
  have "CHR ''<'' \<notin> set a" "CHR ''<'' \<notin> set b"
    using a b by (auto dest: mixedref_no_markup)
  then show ?thesis using MergeCell tx[symmetric] a b by (simp add: piece_text_def text_simps)
next
  case (MergeCells_open n)
  then show ?thesis using tx[symmetric] by (simp add: piece_text_def text_simps)
qed (use tx[symmetric] in \<open>simp_all add: piece_text_def text_simps\<close>)

lemma append_texts_elements:
  assumes clean: "\<forall>d. CHR ''<'' \<notin> set (dts d)"
    and cell: "\<forall>c. Cell c \<in> set ps \<longrightarrow>
                 \<not> ref_out_of_bounds (integerref c) \<and> CHR ''<'' \<notin> set (str_fml_val c)"
    and tx: "append_texts (map (piece_text dts) ps) = Inr fl"
  shows "elements fl = concat (map piece_elements ps)"
  using cell tx
proof (induction ps arbitrary: fl)
  case Nil
  then show ?case by (simp add: elements_def)
next
  case (Cons p ps)
  from Cons.prems(2) obtain s rest where s: "piece_text dts p = Inr s"
    and r: "append_texts (map (piece_text dts) ps) = Inr rest" and fl: "fl = s @ rest"
    by (cases "piece_text dts p"; cases "append_texts (map (piece_text dts) ps)") auto
  have e1: "elements s = piece_elements p"
    using clean _ s by (rule piece_text_elements) (use Cons.prems(1) in simp)
  have e2: "elements rest = concat (map piece_elements ps)"
    using Cons.IH[OF _ r] Cons.prems(1) by simp
  have "rest = [] \<or> hd rest = CHR ''<''" using r by (rule append_texts_starts)
  then show ?case unfolding fl by (simp add: elements_append e1 e2)
qed

lemma elements_well_formed_pieces:
  "rows_well_formed ps lr opn lc \<Longrightarrow>
     elements_well_formed (concat (map piece_elements ps)) (unat lr) opn lc"
  by (induction ps lr opn lc rule: rows_well_formed.induct) (auto simp: word_less_nat_alt)

lemma row_indices_pieces:
  "row_indices (concat (map piece_elements ps)) = map unat (opened_rows ps)"
  by (induction ps rule: opened_rows.induct) auto

lemma cell_refs_pieces:
  "cell_refs (concat (map piece_elements ps)) = map integerref (rendered_cells ps)"
  by (induction ps rule: rendered_cells.induct) auto

text \<open>
  The values of string and formula cells go into the text as they are.  A string value
  that holds markup therefore adds elements: the sheet below has one cell, in row 1,
  and its text has two \<^verbatim>\<open>row\<close> elements with the number 1.
\<close>

theorem injected_row_counterexample:
  \<open>map integerref (cells (snd (do_calls example_limits
      [Add_string_cell \<lparr>row = 1, col = 1\<rparr>
         ''x</t></is></c></row><row r="1"><c r="B1" s="0" t="inlineStr"><is><t>y''
         generic_string_style]
      ([], new_Sheet ''Sheet1'' ''xl/worksheets/sheet1.xml'' 1 ''rId2''))))
     = [\<lparr>row = 1, col = 1\<rparr>]
   \<and> \<not> isl (Sheet_generate_file (\<lambda>d. ''0.000000'') (snd (do_calls example_limits
      [Add_string_cell \<lparr>row = 1, col = 1\<rparr>
         ''x</t></is></c></row><row r="1"><c r="B1" s="0" t="inlineStr"><is><t>y''
         generic_string_style]
      ([], new_Sheet ''Sheet1'' ''xl/worksheets/sheet1.xml'' 1 ''rId2''))))
   \<and> row_indices (elements (projr (Sheet_generate_file (\<lambda>d. ''0.000000'') (snd (do_calls example_limits
      [Add_string_cell \<lparr>row = 1, col = 1\<rparr>
         ''x</t></is></c></row><row r="1"><c r="B1" s="0" t="inlineStr"><is><t>y''
         generic_string_style]
      ([], new_Sheet ''Sheet1'' ''xl/worksheets/sheet1.xml'' 1 ''rId2'')))))) = [1, 1]\<close>
proof -
  let ?v = \<open>''x</t></is></c></row><row r="1"><c r="B1" s="0" t="inlineStr"><is><t>y''\<close>
  let ?sh = "snd (do_calls example_limits [Add_string_cell \<lparr>row = 1, col = 1\<rparr> ?v generic_string_style]
      ([], new_Sheet ''Sheet1'' ''xl/worksheets/sheet1.xml'' 1 ''rId2''))"
  have a: "addStyle generic_string_style [] = ([generic_string_style], 0)"
    by (simp add: addStyle_def)
  have sh: "?sh = (new_Sheet ''Sheet1'' ''xl/worksheets/sheet1.xml'' 1 ''rId2'')
      \<lparr>cells := [\<lparr>integerref = \<lparr>row = 1, col = 1\<rparr>, type = STRING, style_index = 0,
            num_val = NaN, str_fml_val = ?v\<rparr>], used_columns := [1]\<rparr>"
    by (simp add: add_string_cell_def in_bounds_simps store_cell_eq a new_Sheet_def
        example_limits_def)
  have g: "generate_pieces ?sh = [Prolog, Cols_open, Col_bestfit 1, Cols_close, SheetData_open,
      Row_open 1 None,
      Cell \<lparr>integerref = \<lparr>row = 1, col = 1\<rparr>, type = STRING, style_index = 0,
            num_val = NaN, str_fml_val = ?v\<rparr>,
      Row_close, SheetData_close, Worksheet_close]"
    unfolding sh by (simp add: generate_pieces_def col_piece_def new_Sheet_def)
  have m: "integerref_to_mixedref \<lparr>row = 1, col = 1\<rparr> = Inr ''A1''"
    by (simp add: integerref_to_mixedref_def integer_to_column_def MAX_COL_def MAX_ROW_def
        integer_to_column_loop.simps char_of_eq_iff to_string_def to_string_nat.simps)
  have t: "to_string (1::uint32_t) = ''1''" "to_string_nat 0 = ''0''"
    by (simp_all add: to_string_def to_string_nat.simps char_of_eq_iff)
  have cl: "integer_to_column_loop 1 [] = ''A''" "integer_to_column_loop 2 [] = ''B''"
    by (simp_all add: integer_to_column_loop.simps char_of_eq_iff)
  have b1: \<open>mixedref_to_integerref ''B1'' = Inr \<lparr>row = 1, col = 2\<rparr>\<close>
    using mixedref_to_integerref_of_parts[of 2 1]
    by (simp add: MAX_COL_def MAX_ROW_def cl t)
  have a1: \<open>mixedref_to_integerref ''A1'' = Inr \<lparr>row = 1, col = 1\<rparr>\<close>
    using mixedref_to_integerref_of_parts[of 1 1]
    by (simp add: MAX_COL_def MAX_ROW_def cl t)
  have d1: "decimal_value ''1'' = Some 1"
    using decimal_value_to_string[of "1::uint32_t"] by (simp add: t)
  have r: "row_indices (elements (projr (Sheet_generate_file (\<lambda>d. ''0.000000'') ?sh))) = [1, 1]"
    "\<not> isl (Sheet_generate_file (\<lambda>d. ''0.000000'') ?sh)"
    unfolding Sheet_generate_file_def g
    by (simp_all add: piece_text_def cell_text_def m t elements_def tag_element_def tag_name_def
        attribute_value_def List.map_filter_simps a1 b1 d1)
  show ?thesis using sh r by simp
qed

text \<open>
  C4 (amended).  In every state that a sequence of calls on a fresh sheet has produced
  and in which no formula or string value holds the character \<^verbatim>\<open><\<close> (nor does any
  text of \<^verbatim>\<open>std::to_string\<close> on a \<^verbatim>\<open>double\<close>), \<open>Sheet_generate_file\<close> returns a
  text, and the elements read back from that text are well formed in their rows: a row
  starts only when none is open and with a number above the numbers of all rows started
  before, so no row is reopened; every cell is inside the open row of its own row
  number, after the cells of lower column.  The numbers of the \<^verbatim>\<open>row\<close> elements are in
  strictly increasing order, so each occurs once, and they are exactly the row indices
  of the sheet's cells; the references of the \<^verbatim>\<open>c\<close> elements are the references of
  the sheet's cells, in the order of the cells.
\<close>

theorem rendered_rows_are_ordered:
  assumes "\<forall>d. CHR ''<'' \<notin> set (dts d)"
    and "\<forall>c \<in> set (cells (snd (do_calls K calls (cs0, new_Sheet n f i rl)))).
           CHR ''<'' \<notin> set (str_fml_val c)"
  shows "\<exists>fl. Sheet_generate_file dts (snd (do_calls K calls (cs0, new_Sheet n f i rl))) = Inr fl
     \<and> elements_well_formed (elements fl) 0 False 0
     \<and> sorted_wrt (<) (row_indices (elements fl))
     \<and> set (row_indices (elements fl))
         = (\<lambda>c. unat (row (integerref c))) ` set (cells (snd (do_calls K calls (cs0, new_Sheet n f i rl))))
     \<and> cell_refs (elements fl)
         = map integerref (cells (snd (do_calls K calls (cs0, new_Sheet n f i rl))))"
proof -
  let ?sh = "snd (do_calls K calls (cs0, new_Sheet n f i rl))"
  let ?ps = "generate_pieces ?sh"
  have inv: "sheet_inv ?sh"
    using do_calls_inv[of "(cs0, new_Sheet n f i rl)" K calls] by (simp add: new_Sheet_inv)
  note wf = generate_pieces_well_formed[OF inv]
  obtain fl where fl: "Sheet_generate_file dts ?sh = Inr fl"
    using Sheet_generate_file_ok[OF inv, of dts] by blast
  have ib: "\<forall>c \<in> set (cells ?sh). \<not> ref_out_of_bounds (integerref c)"
    using inv by (simp add: sheet_inv_def list_all_iff)
  have cl: "\<forall>c. Cell c \<in> set ?ps \<longrightarrow>
              \<not> ref_out_of_bounds (integerref c) \<and> CHR ''<'' \<notin> set (str_fml_val c)"
  proof (intro allI impI)
    fix c assume "Cell c \<in> set ?ps"
    then have "c \<in> set (cells ?sh)" using Cell_in_pieces[of c ?ps] wf(3) by simp
    then show "\<not> ref_out_of_bounds (integerref c) \<and> CHR ''<'' \<notin> set (str_fml_val c)"
      using ib assms(2) by blast
  qed
  have e: "elements fl = concat (map piece_elements ?ps)"
    using assms(1) cl fl[unfolded Sheet_generate_file_def] by (rule append_texts_elements)
  have w: "elements_well_formed (elements fl) 0 False 0"
    unfolding e using elements_well_formed_pieces[OF wf(1)] by simp
  have r: "row_indices (elements fl) = map unat (opened_rows ?ps)"
    unfolding e by (rule row_indices_pieces)
  have "sorted_wrt (<) (opened_rows ?ps)" using rows_well_formed_sorted[OF wf(1)] by simp
  then have s: "sorted_wrt (<) (row_indices (elements fl))"
    unfolding r sorted_wrt_map by (rule sorted_wrt_mono_rel[rotated]) (simp add: word_less_nat_alt)
  have st: "set (row_indices (elements fl)) = (\<lambda>c. unat (row (integerref c))) ` set (cells ?sh)"
    unfolding r using wf(2) by (simp add: image_image)
  have c: "cell_refs (elements fl) = map integerref (cells ?sh)"
    unfolding e using wf(3) by (simp add: cell_refs_pieces)
  show ?thesis using fl w s st c by blast
qed

theorem rendered_rows_are_ordered_witness:
  "CHR ''<'' \<notin> set ''0.000000''
   \<and> map str_fml_val (cells (snd (do_calls example_limits
        [Add_number_cell \<lparr>row = 2, col = 1\<rparr> (Finite 5) generic_style,
         Add_string_cell \<lparr>row = 1, col = 2\<rparr> ''a > b'' generic_string_style,
         Add_number_cell \<lparr>row = 1, col = 1\<rparr> (Finite 1) generic_style]
        ([], new_Sheet ''Sheet1'' ''xl/worksheets/sheet1.xml'' 1 ''rId2'')))) = ['''', ''a > b'', '''']
   \<and> CHR ''<'' \<notin> set ''a > b''
   \<and> (\<exists>fl. Sheet_generate_file (\<lambda>d. ''0.000000'') (snd (do_calls example_limits
        [Add_number_cell \<lparr>row = 2, col = 1\<rparr> (Finite 5) generic_style,
         Add_string_cell \<lparr>row = 1, col = 2\<rparr> ''a > b'' generic_string_style,
         Add_number_cell \<lparr>row = 1, col = 1\<rparr> (Finite 1) generic_style]
        ([], new_Sheet ''Sheet1'' ''xl/worksheets/sheet1.xml'' 1 ''rId2''))) = Inr fl
      \<and> elements_well_formed (elements fl) 0 False 0
      \<and> row_indices (elements fl) = [1, 2]
      \<and> cell_refs (elements fl)
          = [\<lparr>row = 1, col = 1\<rparr>, \<lparr>row = 1, col = 2\<rparr>, \<lparr>row = 2, col = 1\<rparr>])"
proof -
  let ?calls = "[Add_number_cell \<lparr>row = 2, col = 1\<rparr> (Finite 5) generic_style,
         Add_string_cell \<lparr>row = 1, col = 2\<rparr> ''a > b'' generic_string_style,
         Add_number_cell \<lparr>row = 1, col = 1\<rparr> (Finite 1) generic_style]"
  let ?sh = "snd (do_calls example_limits ?calls
        ([], new_Sheet ''Sheet1'' ''xl/worksheets/sheet1.xml'' 1 ''rId2''))"
  have a: "addStyle generic_style [] = ([generic_style], 0)"
    "addStyle generic_string_style [generic_style] = ([generic_style, generic_string_style], 1)"
    "addStyle generic_style [generic_style, generic_string_style]
       = ([generic_style, generic_string_style], 0)"
    by (simp_all add: addStyle_def generic_style_def generic_string_style_def
        NumberFormat_GENERAL_def NumberFormat_TEXT_def)
  have c: "cells ?sh =
     [\<lparr>integerref = \<lparr>row = 1, col = 1\<rparr>, type = NUMBER, style_index = 0,
            num_val = Finite 1, str_fml_val = []\<rparr>,
      \<lparr>integerref = \<lparr>row = 1, col = 2\<rparr>, type = STRING, style_index = 1,
            num_val = NaN, str_fml_val = ''a > b''\<rparr>,
      \<lparr>integerref = \<lparr>row = 2, col = 1\<rparr>, type = NUMBER, style_index = 0,
            num_val = Finite 5, str_fml_val = []\<rparr>]"
    by (simp add: add_number_cell_def add_string_cell_def in_bounds_simps store_cell_eq a
        new_Sheet_def cell_sort_compare_def example_limits_def)
  have h1: "\<forall>d. CHR ''<'' \<notin> set ((\<lambda>d::double. ''0.000000'') d)" by simp
  have h2: "\<forall>c \<in> set (cells ?sh). CHR ''<'' \<notin> set (str_fml_val c)" unfolding c by simp
  obtain fl where fl: "Sheet_generate_file (\<lambda>d. ''0.000000'') ?sh = Inr fl"
    "elements_well_formed (elements fl) 0 False 0"
    "sorted_wrt (<) (row_indices (elements fl))"
    "set (row_indices (elements fl)) = (\<lambda>c. unat (row (integerref c))) ` set (cells ?sh)"
    "cell_refs (elements fl) = map integerref (cells ?sh)"
    using rendered_rows_are_ordered[OF h1 h2] by blast
  have "set (row_indices (elements fl)) = {1, 2}" using fl(4) unfolding c by auto
  then have "row_indices (elements fl) = [1, 2]"
    using fl(3) strict_sorted_equal[of "row_indices (elements fl)" "[1, 2]"] by simp
  then show ?thesis using fl c by auto
qed

section \<open>Properties of the archive\<close>

lemma finalize_empty: "num_files z = 0 \<Longrightarrow> finalize z = (z, Inl (exception EMPTY_FINALIZE_MESG))"
  by (simp add: finalize_def)

lemma IttyZip_open_ok:
  "IttyZip_open env path z0 = (z, Inr ()) \<Longrightarrow>
     opened z \<and> num_files z = 0 \<and> out_file z = \<lparr>is_open = True, fail = False, written = []\<rparr>"
  by (auto simp: IttyZip_open_def split: if_splits)

text \<open>
  C8.  When \<open>IttyZip_open\<close> has returned normally and no file has been added,
  \<open>finalize\<close> throws the empty-archive error and the archive, the output stream and
  the bytes of the output file with it, is as it was before the call; the same holds
  in any open state whose \<open>num_files\<close> is 0.
\<close>

theorem finalize_on_empty_archive:
  "(IttyZip_open env path z0 = (z, Inr ()) \<longrightarrow>
      finalize z = (z, Inl (exception EMPTY_FINALIZE_MESG))
      \<and> written (out_file (fst (finalize z))) = written (out_file z)
      \<and> written (out_file z) = [])
   \<and> (opened z' \<and> num_files z' = 0 \<longrightarrow>
      finalize z' = (z', Inl (exception EMPTY_FINALIZE_MESG))
      \<and> written (out_file (fst (finalize z'))) = written (out_file z'))"
  using IttyZip_open_ok[of env path z0 z] by (auto simp: finalize_empty)

theorem finalize_on_empty_archive_witness:
  "IttyZip_open \<lparr>can_open = True, local_time = \<lparr>tm_sec = 0, tm_min = 0, tm_hour = 12, tm_mday = 3,
        tm_mon = 10, tm_year = 126\<rparr>, utc_timestamp = ''2026-11-03T12:00:00Z'',
        double_to_string = (\<lambda>d. [])\<rparr> ''out.zip'' new_IttyZip
    = (new_IttyZip\<lparr>opened := True, out_file := \<lparr>is_open = True, fail = False, written = []\<rparr>\<rparr>, Inr ())
   \<and> finalize (new_IttyZip\<lparr>opened := True, out_file := \<lparr>is_open = True, fail = False, written = []\<rparr>\<rparr>)
    = (new_IttyZip\<lparr>opened := True, out_file := \<lparr>is_open = True, fail = False, written = []\<rparr>\<rparr>,
       Inl (exception EMPTY_FINALIZE_MESG))"
proof -
  let ?env = "\<lparr>can_open = True, local_time = \<lparr>tm_sec = 0, tm_min = 0, tm_hour = 12, tm_mday = 3,
        tm_mon = 10, tm_year = 126\<rparr>, utc_timestamp = ''2026-11-03T12:00:00Z'',
        double_to_string = (\<lambda>d. [])\<rparr>"
  let ?z = "new_IttyZip\<lparr>opened := True, out_file := \<lparr>is_open = True, fail = False, written = []\<rparr>\<rparr>"
  have h: "IttyZip_open ?env ''out.zip'' new_IttyZip = (?z, Inr ())"
    by (simp add: IttyZip_open_def new_IttyZip_def)
  show ?thesis
    using h finalize_on_empty_archive[of ?env "''out.zip''" new_IttyZip ?z ?z]
    by simp
qed

section \<open>Properties of publish\<close>






lemma run_steps_addFile:
  "run_steps (archive_addFile env n cf # rest) wb =
     (case addFile env n (cf wb) (archive wb) of
        (z', Inl e) \<Rightarrow> (wb\<lparr>archive := z'\<rparr>, Inl e)
      | (z', Inr u) \<Rightarrow> run_steps rest (wb\<lparr>archive := z'\<rparr>))"
  by (simp add: archive_addFile_def split: prod.splits sum.splits)















lemma with_mixedref_filename:
  assumes "\<And>r st. filename (snd (fst (f r st))) = filename (snd st)"
  shows "filename (snd (fst (with_mixedref m f st))) = filename (snd st)"
  using assms by (simp add: with_mixedref_def split: sum.splits)






















section \<open>A worked example of publish\<close>












end
